theory Spec2Isabelle
  imports Complex_Main "HOL-Library.List_Lexorder"
begin

section \<open>JavaScript values used by the state controller\<close>

text \<open>
  The controller (\<^verbatim>\<open>src/routes/state.js\<close>, second part: the state controller) reads
  strings from the route and the query string, a JSON body, and numbers produced by
  \<^verbatim>\<open>parseInt\<close>.
\<close>

subsection \<open>Strings\<close>

text \<open>
  A string of a request (a path parameter, a query value, a string of the body, a stored
  name) is the list of its UTF-16 code units, so its length is the \<^verbatim>\<open>length\<close> of the
  JavaScript string. The names and messages written in the source stay Isabelle strings;
  \<open>units\<close> gives the code units of such an ASCII literal.
\<close>

type_synonym ustring = "nat list"

definition units :: "string \<Rightarrow> ustring" where
  "units s = map of_char s"

subsection \<open>Numbers\<close>

text \<open>
  A JavaScript number is a binary64 value: \<^verbatim>\<open>NaN\<close>, an infinity, or a finite value,
  given by the real number it stands for. The two zeros are one value here: the
  controller only tests a zero for truthiness and compares it with 1.
\<close>

datatype number = NaN | PInf | NInf | Fin real

text \<open>Rounding to the nearest integer, a tie to the even one.\<close>

definition round_even :: "real \<Rightarrow> int" where
  "round_even z =
     (let f = \<lfloor>z\<rfloor>; d = z - of_int f
      in if d < 1 / 2 then f else if 1 / 2 < d then f + 1 else if even f then f else f + 1)"

text \<open>
  The parameters of binary64: 52 stored bits of the significand, the least normal
  exponent \<open>-1022\<close> and the greatest exponent 1023.
\<close>

definition p_bits :: nat where "p_bits = 52"

definition e_min :: nat where "e_min = 1022"

definition e_max :: nat where "e_max = 1023"

text \<open>
  \<open>binade n a\<close> is the greatest \<open>j \<le> n\<close> with \<open>2 ^ j \<le> a * 2 ^ e_min\<close>, or 0: the
  exponent of \<open>a\<close> counted from the least normal one (0 for a subnormal \<open>a\<close>). The unit in
  the last place of \<open>x\<close> follows from it, and \<open>rnd x\<close> is the binary64 value of the real
  \<open>x\<close>: the nearest multiple of that unit, ties to even, an infinity from \<open>2 ^ 1024\<close> on.
\<close>

fun binade :: "nat \<Rightarrow> real \<Rightarrow> nat" where
  "binade 0 a = 0"
| "binade (Suc j) a = (if 2 ^ Suc j \<le> a * 2 ^ e_min then Suc j else binade j a)"

definition ulp :: "real \<Rightarrow> real" where
  "ulp x = 2 ^ binade (e_min + e_max) \<bar>x\<bar> / 2 ^ (e_min + p_bits)"

definition huge :: real where
  "huge = 2 ^ Suc e_max"

definition rnd :: "real \<Rightarrow> number" where
  "rnd x =
     (let y = of_int (round_even (x / ulp x)) * ulp x
      in if huge \<le> y then PInf else if y \<le> - huge then NInf else Fin y)"

text \<open>Truthiness of a number: \<^verbatim>\<open>NaN\<close> and 0 are falsy. \<^verbatim>\<open>!id\<close> and \<^verbatim>\<open>x || d\<close>.\<close>

definition num_falsy :: "number \<Rightarrow> bool" where
  "num_falsy x = (x = NaN \<or> x = Fin 0)"

definition num_or :: "number \<Rightarrow> number \<Rightarrow> number" where
  "num_or x d = (if num_falsy x then d else x)"

text \<open>\<^verbatim>\<open>Math.max(a, b)\<close>.\<close>

fun js_max :: "number \<Rightarrow> number \<Rightarrow> number" where
  "js_max NaN b = NaN"
| "js_max a NaN = NaN"
| "js_max PInf b = PInf"
| "js_max a PInf = PInf"
| "js_max NInf b = b"
| "js_max a NInf = a"
| "js_max (Fin x) (Fin y) = Fin (max x y)"

text \<open>\<^verbatim>\<open>a - b\<close>, \<^verbatim>\<open>a * b\<close> and \<^verbatim>\<open>a / b\<close>: the exact result, rounded.\<close>

fun js_sub :: "number \<Rightarrow> number \<Rightarrow> number" where
  "js_sub NaN b = NaN"
| "js_sub a NaN = NaN"
| "js_sub PInf PInf = NaN"
| "js_sub NInf NInf = NaN"
| "js_sub PInf b = PInf"
| "js_sub NInf b = NInf"
| "js_sub (Fin x) PInf = NInf"
| "js_sub (Fin x) NInf = PInf"
| "js_sub (Fin x) (Fin y) = rnd (x - y)"

definition signed_inf :: "bool \<Rightarrow> number" where
  "signed_inf positive = (if positive then PInf else NInf)"

fun js_mul :: "number \<Rightarrow> number \<Rightarrow> number" where
  "js_mul NaN b = NaN"
| "js_mul a NaN = NaN"
| "js_mul PInf PInf = PInf"
| "js_mul PInf NInf = NInf"
| "js_mul NInf PInf = NInf"
| "js_mul NInf NInf = PInf"
| "js_mul PInf (Fin y) = (if y = 0 then NaN else signed_inf (0 < y))"
| "js_mul NInf (Fin y) = (if y = 0 then NaN else signed_inf (y < 0))"
| "js_mul (Fin x) PInf = (if x = 0 then NaN else signed_inf (0 < x))"
| "js_mul (Fin x) NInf = (if x = 0 then NaN else signed_inf (x < 0))"
| "js_mul (Fin x) (Fin y) = rnd (x * y)"

fun js_div :: "number \<Rightarrow> number \<Rightarrow> number" where
  "js_div NaN b = NaN"
| "js_div a NaN = NaN"
| "js_div PInf PInf = NaN"
| "js_div PInf NInf = NaN"
| "js_div NInf PInf = NaN"
| "js_div NInf NInf = NaN"
| "js_div PInf (Fin y) = signed_inf (0 \<le> y)"
| "js_div NInf (Fin y) = signed_inf (y < 0)"
| "js_div (Fin x) PInf = Fin 0"
| "js_div (Fin x) NInf = Fin 0"
| "js_div (Fin x) (Fin y) =
     (if y = 0 then (if x = 0 then NaN else signed_inf (0 < x)) else rnd (x / y))"

text \<open>\<^verbatim>\<open>Math.ceil(a)\<close>.\<close>

fun js_ceil :: "number \<Rightarrow> number" where
  "js_ceil (Fin x) = Fin (of_int \<lceil>x\<rceil>)"
| "js_ceil a = a"

text \<open>\<^verbatim>\<open>a <= b\<close>: false when either is \<^verbatim>\<open>NaN\<close>.\<close>

fun js_le :: "number \<Rightarrow> number \<Rightarrow> bool" where
  "js_le NaN b = False"
| "js_le a NaN = False"
| "js_le NInf b = True"
| "js_le a PInf = True"
| "js_le PInf b = False"
| "js_le a NInf = False"
| "js_le (Fin x) (Fin y) = (x \<le> y)"

subsection \<open>\<^verbatim>\<open>parseInt\<close> with no radix\<close>

text \<open>The white space and line terminators of ECMAScript, by code unit.\<close>

definition is_ws :: "nat \<Rightarrow> bool" where
  "is_ws c =
     (c \<in> {9, 10, 11, 12, 13, 32, 160, 5760, 8232, 8233, 8239, 8287, 12288, 65279} \<or>
      (8192 \<le> c \<and> c \<le> 8202))"

definition digit_val :: "nat \<Rightarrow> nat \<Rightarrow> nat option" where
  "digit_val radix c =
     (let v = (if 48 \<le> c \<and> c \<le> 57 then Some (c - 48)
               else if 97 \<le> c \<and> c \<le> 122 then Some (c - 87)
               else if 65 \<le> c \<and> c \<le> 90 then Some (c - 55)
               else None)
      in case v of None \<Rightarrow> None | Some d \<Rightarrow> if d < radix then Some d else None)"

definition is_digit :: "nat \<Rightarrow> nat \<Rightarrow> bool" where
  "is_digit radix c = (digit_val radix c \<noteq> None)"

definition digits_value :: "nat \<Rightarrow> ustring \<Rightarrow> nat" where
  "digits_value radix ds = foldl (\<lambda>acc c. acc * radix + the (digit_val radix c)) 0 ds"

text \<open>
  ECMAScript \<^verbatim>\<open>parseInt(string)\<close>: leading white space is dropped, one sign is read,
  a \<^verbatim>\<open>0x\<close> prefix selects radix 16, then the longest prefix of digits is the number;
  with no digit the result is \<^verbatim>\<open>NaN\<close>. What follows the digits is ignored. The result
  is the binary64 value of the integer read.
\<close>

definition parseInt :: "ustring \<Rightarrow> number" where
  "parseInt s =
     (let s1 = dropWhile is_ws s;
          sign = (case s1 of c # _ \<Rightarrow> if c = 45 then (-1 :: int) else 1 | [] \<Rightarrow> 1);
          s2 = (case s1 of c # r \<Rightarrow> if c = 45 \<or> c = 43 then r else s1 | [] \<Rightarrow> s1);
          hex = (take 2 s2 = units ''0x'' \<or> take 2 s2 = units ''0X'');
          radix = (if hex then 16 else 10);
          s3 = (if hex then drop 2 s2 else s2);
          ds = takeWhile (is_digit radix) s3
      in if ds = [] then NaN else rnd (of_int (sign * int (digits_value radix ds))))"

subsection \<open>Query values and JSON\<close>

datatype json =
    JNull
  | JBool bool
  | JNum real
  | JStr ustring
  | JArr "json list"
  | JObj "(ustring \<times> json) list"

text \<open>
  A value of the parsed query string (Express, \<^verbatim>\<open>req.query.x\<close>): a string, an array of
  strings (a repeated parameter) or a nested object. An absent parameter is
  \<^verbatim>\<open>undefined\<close>, that is \<^term>\<open>None\<close>.
\<close>

datatype qval = QStr ustring | QArr "ustring list" | QObj

fun join_comma :: "ustring list \<Rightarrow> ustring" where
  "join_comma [] = []"
| "join_comma [s] = s"
| "join_comma (s # t # ss) = s @ units '','' @ join_comma (t # ss)"

text \<open>\<^verbatim>\<open>String(v)\<close> on a query value, as \<^verbatim>\<open>parseInt\<close> and a computed key apply it.\<close>

fun qval_to_string :: "qval option \<Rightarrow> ustring" where
  "qval_to_string None = units ''undefined''"
| "qval_to_string (Some (QStr s)) = s"
| "qval_to_string (Some (QArr ss)) = join_comma ss"
| "qval_to_string (Some QObj) = units ''[object Object]''"

text \<open>Truthiness of a query value: only the empty string is falsy.\<close>

fun qval_truthy :: "qval \<Rightarrow> bool" where
  "qval_truthy (QStr s) = (s \<noteq> [])"
| "qval_truthy (QArr ss) = True"
| "qval_truthy QObj = True"

section \<open>Thrown errors and responses\<close>

datatype zod_code = InvalidType | TooSmall | TooBig | Custom

text \<open>
  One issue of a \<^verbatim>\<open>ZodError\<close>. The message is \<^term>\<open>Some m\<close> where the source gives
  the text \<open>m\<close> to the check, and \<^term>\<open>None\<close> where the library's own text is used.
\<close>

record zod_issue =
  issue_code :: zod_code
  issue_path :: "string list"
  issue_message :: "string option"

text \<open>
  The value under the key \<^verbatim>\<open>errors\<close> of an error response:
  \<^verbatim>\<open>{ message }\<close>, \<^verbatim>\<open>{ [field]: { type: "unique", message } }\<close>, the issues of a
  \<^verbatim>\<open>ZodError\<close>, or any other value an error object carries in \<^verbatim>\<open>err.errors\<close>.
\<close>

datatype errors_payload =
    ErrMessage string
  | ErrUnique string string
  | ErrIssues "zod_issue list"
  | ErrRaw json

text \<open>\<^verbatim>\<open>err.meta?.target\<close> of a Prisma request error: a string or an array of strings.\<close>

datatype target = TStr string | TArr "string list"

text \<open>
  An error object, by the properties \<^verbatim>\<open>asyncHandler\<close> reads: \<^verbatim>\<open>name\<close>,
  \<^verbatim>\<open>message\<close>, \<^verbatim>\<open>status\<close> (\<^term>\<open>None\<close>: no such property), \<^verbatim>\<open>expose\<close>,
  \<^verbatim>\<open>errors\<close> (\<^term>\<open>None\<close>: absent or falsy), whether it is an instance of
  \<^verbatim>\<open>Prisma.PrismaClientKnownRequestError\<close>, \<^verbatim>\<open>code\<close> and \<^verbatim>\<open>meta?.target\<close>.
\<close>

record js_error =
  err_name :: string
  err_message :: string
  err_status :: "int option"
  err_expose :: bool
  err_errors :: "errors_payload option"
  err_known_request :: bool
  err_code :: "string option"
  err_target :: "target option"

text \<open>
  \<^verbatim>\<open>createError(status, message)\<close> of the package http-errors: the error carries the
  status, and \<^verbatim>\<open>expose\<close> is set for a status below 500.
\<close>

definition createError :: "int \<Rightarrow> string \<Rightarrow> js_error" where
  "createError st msg =
     \<lparr>err_name = (if st = 400 then ''BadRequestError''
                   else if st = 404 then ''NotFoundError'' else ''HttpError''),
      err_message = msg, err_status = Some st, err_expose = (st < 500),
      err_errors = None, err_known_request = False, err_code = None, err_target = None\<rparr>"

text \<open>
  A \<^verbatim>\<open>ZodError\<close>, as \<^verbatim>\<open>schema.parseAsync\<close> throws it: its name is \<^verbatim>\<open>ZodError\<close>, its
  \<^verbatim>\<open>errors\<close> are its issues, and it has neither a \<^verbatim>\<open>status\<close> nor an \<^verbatim>\<open>expose\<close>
  property. Its message is the library's rendering of the issues, not modelled.
\<close>

definition zodError :: "zod_issue list \<Rightarrow> js_error" where
  "zodError issues =
     \<lparr>err_name = ''ZodError'', err_message = ''ZodError'', err_status = None,
      err_expose = False, err_errors = Some (ErrIssues issues),
      err_known_request = False, err_code = None, err_target = None\<rparr>"

definition prismaValidationError :: "string \<Rightarrow> js_error" where
  "prismaValidationError msg =
     \<lparr>err_name = ''PrismaClientValidationError'', err_message = msg, err_status = None,
      err_expose = False, err_errors = None,
      err_known_request = False, err_code = None, err_target = None\<rparr>"

definition prismaKnownRequestError :: "string \<Rightarrow> string \<Rightarrow> target option \<Rightarrow> js_error" where
  "prismaKnownRequestError code msg tgt =
     \<lparr>err_name = ''PrismaClientKnownRequestError'', err_message = msg, err_status = None,
      err_expose = False, err_errors = None,
      err_known_request = True, err_code = Some code, err_target = tgt\<rparr>"

text \<open>A plain \<^verbatim>\<open>Error\<close>, with a message and nothing else.\<close>

definition plainError :: "string \<Rightarrow> js_error" where
  "plainError msg =
     \<lparr>err_name = ''Error'', err_message = msg, err_status = None,
      err_expose = False, err_errors = None,
      err_known_request = False, err_code = None, err_target = None\<rparr>"

fun target_truthy :: "target option \<Rightarrow> bool" where
  "target_truthy None = False"
| "target_truthy (Some (TStr s)) = (s \<noteq> [])"
| "target_truthy (Some (TArr cs)) = True"

text \<open>
  \<^verbatim>\<open>Array.isArray(t) ? t[0] : t\<close>, then used in a template string and as a computed
  key: the first element of an empty array is \<^verbatim>\<open>undefined\<close>, printed as such.
\<close>

fun target_field :: "target \<Rightarrow> string" where
  "target_field (TStr s) = s"
| "target_field (TArr []) = ''undefined''"
| "target_field (TArr (c # cs)) = c"

record state_row =
  state_id :: int
  stateName :: ustring
  createdAt :: int
  updatedAt :: int

record states_page =
  states :: "state_row list"
  page :: number
  totalPages :: number
  totalStates :: number

datatype res_body =
    BErrors errors_payload
  | BState state_row
  | BPage states_page
  | BMessage string

record response =
  status :: nat
  body :: res_body

text \<open>\<^verbatim>\<open>res.json(b)\<close> with no status set answers 200.\<close>

definition res_json :: "res_body \<Rightarrow> response" where
  "res_json b = \<lparr>status = 200, body = b\<rparr>"

definition res_status_json :: "nat \<Rightarrow> res_body \<Rightarrow> response" where
  "res_status_json s b = \<lparr>status = s, body = b\<rparr>"

subsection \<open>\<^verbatim>\<open>asyncHandler\<close>\<close>

text \<open>The callback of \<^verbatim>\<open>.catch\<close>: the response written for a thrown error.\<close>

definition catch_error :: "js_error \<Rightarrow> response" where
  "catch_error err =
     (if err_status err = Some 400 \<and> err_expose err then
        res_status_json 400
          (BErrors (case err_errors err of Some p \<Rightarrow> p | None \<Rightarrow> ErrMessage (err_message err)))
      else if err_name err = ''PrismaClientValidationError'' then
        res_status_json 400 (BErrors (ErrMessage (err_message err)))
      else if err_known_request err \<and> err_code err = Some ''P2002'' \<and> target_truthy (err_target err) then
        (let field = target_field (the (err_target err));
             message = ''A record with that '' @ field @ '' already exists.''
         in res_status_json 400 (BErrors (ErrUnique field message)))
      else res_status_json 500 (BErrors (ErrMessage ''Internal Server Error'')))"

text \<open>
  A handler function takes the request and the store and either throws or writes a
  response; the store it leaves is returned in both cases. \<^verbatim>\<open>asyncHandler(fn)\<close> is the
  exported operation: it answers with the response of \<open>fn\<close>, or with the response of the
  catch callback for what \<open>fn\<close> threw.
\<close>

definition asyncHandler ::
  "('req \<Rightarrow> 'st \<Rightarrow> (js_error + response) \<times> 'st) \<Rightarrow> 'req \<Rightarrow> 'st \<Rightarrow> response \<times> 'st" where
  "asyncHandler fn req st =
     (case fn req st of
        (Inl err, st') \<Rightarrow> (catch_error err, st')
      | (Inr res, st') \<Rightarrow> (res, st'))"

section \<open>The persistence client\<close>

text \<open>
  Modelled from the spec: the table behind \<^verbatim>\<open>prisma.states\<close>, whose schema is not in
  the repository's sources. Its columns are id, stateName, createdAt and updatedAt; the id
  is assigned by the store, one after the other; both timestamps are managed by the
  store: set at creation, updatedAt again at every update, each write taking a
  timestamp later than every earlier one (the store's clock moves on with it); no
  uniqueness constraint on stateName is declared.

  The client's calls follow Prisma's documented behaviour: a query whose arguments do not
  fit the schema is refused with a \<^verbatim>\<open>PrismaClientValidationError\<close> before it reaches the
  database, an empty \<^verbatim>\<open>orderBy\<close> key makes the client throw a plain \<^verbatim>\<open>Error\<close>, and an
  update or delete of a missing record fails with the request error \<^verbatim>\<open>P2025\<close>. What the
  sources do not fix is taken as a parameter of the store: which integers its id column
  takes, which integers the client takes for \<^verbatim>\<open>skip\<close> and \<^verbatim>\<open>take\<close>, which names the
  database matches to the text of a \<^verbatim>\<open>contains\<close> filter (its collation decides, for
  instance, whether case matters), and the text of the message the client renders for a
  failed call.

  The store is its rows in table order, the next id, its clock, the calls made on it so
  far, and these four parameters.
\<close>

datatype column = ColId | ColStateName | ColCreatedAt | ColUpdatedAt

datatype where_clause = WhereAll | WhereContains qval

datatype store_call =
    FindMany where_clause number number ustring qval
  | Count where_clause
  | FindUnique number
  | Create ustring
  | Update number "(string \<times> ustring option) list"
  | Delete number

record store =
  rows :: "state_row list"
  next_id :: int
  now :: int
  calls :: "store_call list"
  takes_id :: "int \<Rightarrow> bool"
  takes_count :: "int \<Rightarrow> bool"
  text_contains :: "ustring \<Rightarrow> ustring \<Rightarrow> bool"
  client_text :: "store_call \<Rightarrow> string"

definition column_of :: "ustring \<Rightarrow> column option" where
  "column_of k =
     (if k = units ''id'' then Some ColId
      else if k = units ''stateName'' then Some ColStateName
      else if k = units ''createdAt'' then Some ColCreatedAt
      else if k = units ''updatedAt'' then Some ColUpdatedAt
      else None)"

text \<open>A sort order is the string \<^verbatim>\<open>asc\<close> or \<^verbatim>\<open>desc\<close>; \<^term>\<open>Some True\<close> is descending.\<close>

definition sort_order_of :: "qval \<Rightarrow> bool option" where
  "sort_order_of v =
     (if v = QStr (units ''asc'') then Some False
      else if v = QStr (units ''desc'') then Some True
      else None)"

text \<open>The filter of a where clause, \<^term>\<open>None\<close> when the clause does not fit the schema.\<close>

fun where_filter :: "store \<Rightarrow> where_clause \<Rightarrow> (state_row \<Rightarrow> bool) option" where
  "where_filter st WhereAll = Some (\<lambda>r. True)"
| "where_filter st (WhereContains (QStr s)) = Some (\<lambda>r. text_contains st s (stateName r))"
| "where_filter st (WhereContains v) = None"

definition order_rows :: "column \<Rightarrow> bool \<Rightarrow> state_row list \<Rightarrow> state_row list" where
  "order_rows col desc rs =
     (let asc = (case col of
                   ColId \<Rightarrow> sort_key state_id rs
                 | ColStateName \<Rightarrow> sort_key stateName rs
                 | ColCreatedAt \<Rightarrow> sort_key createdAt rs
                 | ColUpdatedAt \<Rightarrow> sort_key updatedAt rs)
      in if desc then rev asc else asc)"

definition log_call :: "store_call \<Rightarrow> store \<Rightarrow> store" where
  "log_call c st = st\<lparr>calls := calls st @ [c]\<rparr>"

text \<open>A number as an integer argument: \<^term>\<open>None\<close> unless it is a finite integer.\<close>

definition as_int :: "number \<Rightarrow> int option" where
  "as_int n = (case n of Fin x \<Rightarrow> if x = of_int \<lfloor>x\<rfloor> then Some \<lfloor>x\<rfloor> else None | _ \<Rightarrow> None)"

definition id_arg :: "store \<Rightarrow> number \<Rightarrow> int option" where
  "id_arg st n = (case as_int n of Some k \<Rightarrow> if takes_id st k then Some k else None | None \<Rightarrow> None)"

definition take_arg :: "store \<Rightarrow> number \<Rightarrow> int option" where
  "take_arg st n = (case as_int n of Some k \<Rightarrow> if takes_count st k then Some k else None | None \<Rightarrow> None)"

text \<open>\<^verbatim>\<open>skip\<close> is refused when negative.\<close>

definition skip_arg :: "store \<Rightarrow> number \<Rightarrow> int option" where
  "skip_arg st n =
     (case as_int n of Some k \<Rightarrow> if 0 \<le> k \<and> takes_count st k then Some k else None | None \<Rightarrow> None)"

text \<open>The slice of the ordered rows: a negative \<^verbatim>\<open>take\<close> counts from the end.\<close>

definition slice_rows :: "int \<Rightarrow> int \<Rightarrow> state_row list \<Rightarrow> state_row list" where
  "slice_rows s t rs =
     (if 0 \<le> t then take (nat t) (drop (nat s) rs)
      else rev (take (nat (- t)) (drop (nat s) (rev rs))))"

text \<open>\<^verbatim>\<open>findMany({ where, skip, take, orderBy: { [key]: order }, select })\<close>; the
  selection names all four columns.\<close>

definition findMany ::
  "where_clause \<Rightarrow> number \<Rightarrow> number \<Rightarrow> ustring \<Rightarrow> qval \<Rightarrow> store \<Rightarrow> (js_error + state_row list) \<times> store" where
  "findMany wh skip tk key ord st =
     (let call = FindMany wh skip tk key ord;
          st' = log_call call st;
          refused = (Inl (prismaValidationError (client_text st call)), st')
      in if key = [] then (Inl (plainError (client_text st call)), st')
         else case where_filter st wh of None \<Rightarrow> refused | Some f \<Rightarrow>
              (case column_of key of None \<Rightarrow> refused | Some col \<Rightarrow>
              (case sort_order_of ord of None \<Rightarrow> refused | Some desc \<Rightarrow>
              (case skip_arg st skip of None \<Rightarrow> refused | Some s \<Rightarrow>
              (case take_arg st tk of None \<Rightarrow> refused | Some t \<Rightarrow>
                 (Inr (slice_rows s t (order_rows col desc (filter f (rows st)))), st'))))))"

definition count :: "where_clause \<Rightarrow> store \<Rightarrow> (js_error + number) \<times> store" where
  "count wh st =
     (let st' = log_call (Count wh) st in
      case where_filter st wh of
        Some f \<Rightarrow> (Inr (Fin (real (length (filter f (rows st))))), st')
      | None \<Rightarrow> (Inl (prismaValidationError (client_text st (Count wh))), st'))"

definition findUnique :: "number \<Rightarrow> store \<Rightarrow> (js_error + state_row option) \<times> store" where
  "findUnique n st =
     (let st' = log_call (FindUnique n) st in
      case id_arg st n of
        None \<Rightarrow> (Inl (prismaValidationError (client_text st (FindUnique n))), st')
      | Some k \<Rightarrow> (Inr (find (\<lambda>r. state_id r = k) (rows st)), st'))"

definition create :: "ustring \<Rightarrow> store \<Rightarrow> state_row \<times> store" where
  "create name st =
     (let r = \<lparr>state_id = next_id st, stateName = name, createdAt = now st, updatedAt = now st\<rparr>
      in (r, log_call (Create name)
               (st\<lparr>rows := rows st @ [r], next_id := next_id st + 1, now := now st + 1\<rparr>)))"

text \<open>\<^verbatim>\<open>update({ where: { id }, data })\<close>: a key of \<open>data\<close> whose value is
  \<^verbatim>\<open>undefined\<close> leaves its column as it is.\<close>

definition update ::
  "number \<Rightarrow> (string \<times> ustring option) list \<Rightarrow> store \<Rightarrow> (js_error + state_row) \<times> store" where
  "update n data st =
     (let call = Update n data; st' = log_call call st in
      case id_arg st n of
        None \<Rightarrow> (Inl (prismaValidationError (client_text st call)), st')
      | Some k \<Rightarrow>
          (case find (\<lambda>r. state_id r = k) (rows st) of
             None \<Rightarrow> (Inl (prismaKnownRequestError ''P2025'' (client_text st call) None), st')
           | Some r \<Rightarrow>
               (let r' = r\<lparr>stateName := (case map_of data ''stateName'' of
                                           Some (Some v) \<Rightarrow> v | _ \<Rightarrow> stateName r),
                           updatedAt := now st\<rparr>
                in (Inr r', st'\<lparr>rows := map (\<lambda>x. if state_id x = k then r' else x) (rows st),
                               now := now st + 1\<rparr>))))"

definition delete :: "number \<Rightarrow> store \<Rightarrow> (js_error + unit) \<times> store" where
  "delete n st =
     (let call = Delete n; st' = log_call call st in
      case id_arg st n of
        None \<Rightarrow> (Inl (prismaValidationError (client_text st call)), st')
      | Some k \<Rightarrow>
          (case find (\<lambda>r. state_id r = k) (rows st) of
             None \<Rightarrow> (Inl (prismaKnownRequestError ''P2025'' (client_text st call) None), st')
           | Some r \<Rightarrow> (Inr (), st'\<lparr>rows := filter (\<lambda>x. state_id x \<noteq> k) (rows st)\<rparr>)))"

section \<open>The schemas\<close>

text \<open>
  The body of a request is \<^verbatim>\<open>req.body\<close>: a JSON value, or \<^term>\<open>None\<close> for
  \<^verbatim>\<open>undefined\<close>. A JSON object is the list of its properties, each key once.
  \<^verbatim>\<open>z.string().min(1, msg).max(255)\<close> on the value of a key (\<^term>\<open>None\<close>: the key is
  absent): every check of the string is run.
\<close>

definition string_min1_max255 :: "string list \<Rightarrow> string option \<Rightarrow> json option \<Rightarrow> zod_issue list" where
  "string_min1_max255 path min_message v =
     (case v of
        Some (JStr s) \<Rightarrow>
          (if length s < 1
           then [\<lparr>issue_code = TooSmall, issue_path = path, issue_message = min_message\<rparr>]
           else []) @
          (if length s > 255
           then [\<lparr>issue_code = TooBig, issue_path = path, issue_message = None\<rparr>]
           else [])
      | _ \<Rightarrow> [\<lparr>issue_code = InvalidType, issue_path = path, issue_message = None\<rparr>])"

definition not_an_object :: "zod_issue list" where
  "not_an_object = [\<lparr>issue_code = InvalidType, issue_path = [], issue_message = None\<rparr>]"

text \<open>The schema of \<^verbatim>\<open>createState\<close>; the result is \<^verbatim>\<open>validatedData.stateName\<close>.\<close>

definition createSchema :: "json option \<Rightarrow> js_error + ustring" where
  "createSchema b =
     (case b of
        Some (JObj kvs) \<Rightarrow>
          (let issues = string_min1_max255 [''stateName''] (Some ''State name is required'')
                          (map_of kvs (units ''stateName''))
           in if issues = []
              then (case map_of kvs (units ''stateName'') of
                      Some (JStr s) \<Rightarrow> Inr s
                    | _ \<Rightarrow> Inl (zodError issues))
              else Inl (zodError issues))
      | _ \<Rightarrow> Inl (zodError not_an_object))"

text \<open>
  The schema of \<^verbatim>\<open>updateState\<close>. Its object part: \<^verbatim>\<open>stateName\<close> is optional and
  unknown keys are dropped; an absent key is not a key of the parsed object. The result
  is the parsed object as the list of its keys and values (\<^term>\<open>None\<close>:
  \<^verbatim>\<open>undefined\<close>).
\<close>

definition updateObject :: "json option \<Rightarrow> js_error + (string \<times> ustring option) list" where
  "updateObject b =
     (case b of
        Some (JObj kvs) \<Rightarrow>
          (case map_of kvs (units ''stateName'') of
             None \<Rightarrow> Inr []
           | Some v \<Rightarrow>
               (let issues = string_min1_max255 [''stateName''] None (Some v)
                in if issues = []
                   then (case v of
                           JStr s \<Rightarrow> Inr [(''stateName'', Some s)]
                         | _ \<Rightarrow> Inl (zodError issues))
                   else Inl (zodError issues)))
      | _ \<Rightarrow> Inl (zodError not_an_object))"

text \<open>\<^verbatim>\<open>.refine((data) => Object.keys(data).length > 0, ...)\<close> on the parsed object.\<close>

definition updateSchema :: "json option \<Rightarrow> js_error + (string \<times> ustring option) list" where
  "updateSchema b =
     (case updateObject b of
        Inl err \<Rightarrow> Inl err
      | Inr data \<Rightarrow>
          if length (map fst data) > 0 then Inr data
          else Inl (zodError [\<lparr>issue_code = Custom, issue_path = [],
                               issue_message = Some ''At least one field is required''\<rparr>]))"

section \<open>The handlers\<close>

record request =
  params_id :: "ustring option"
  query_page :: "qval option"
  query_limit :: "qval option"
  query_search :: "qval option"
  query_sortBy :: "qval option"
  query_sortOrder :: "qval option"
  req_body :: "json option"

text \<open>\<^verbatim>\<open>String(req.params.id)\<close>, as \<^verbatim>\<open>parseInt\<close> applies it.\<close>

definition param_to_string :: "ustring option \<Rightarrow> ustring" where
  "param_to_string p = (case p of None \<Rightarrow> units ''undefined'' | Some s \<Rightarrow> s)"

subsection \<open>\<^verbatim>\<open>getStates\<close>\<close>

definition effective_page :: "request \<Rightarrow> number" where
  "effective_page req =
     js_max (Fin 1) (num_or (parseInt (qval_to_string (query_page req))) (Fin 1))"

definition effective_limit :: "request \<Rightarrow> number" where
  "effective_limit req =
     js_max (Fin 1) (num_or (parseInt (qval_to_string (query_limit req))) (Fin 10))"

definition skip_of :: "request \<Rightarrow> number" where
  "skip_of req = js_mul (js_sub (effective_page req) (Fin 1)) (effective_limit req)"

text \<open>A destructuring default: it stands in for \<^verbatim>\<open>undefined\<close> only.\<close>

definition with_default :: "qval option \<Rightarrow> string \<Rightarrow> qval" where
  "with_default v d = (case v of None \<Rightarrow> QStr (units d) | Some x \<Rightarrow> x)"

definition mappedSortBy :: "request \<Rightarrow> qval" where
  "mappedSortBy req =
     (let sortBy = with_default (query_sortBy req) ''stateName''
      in if sortBy = QStr (units ''name'') then QStr (units ''stateName'') else sortBy)"

definition where_of :: "request \<Rightarrow> where_clause" where
  "where_of req =
     (let search = with_default (query_search req) []
      in if qval_truthy search then WhereContains search else WhereAll)"

definition getStates_fn :: "request \<Rightarrow> store \<Rightarrow> (js_error + response) \<times> store" where
  "getStates_fn req st =
     (let pg = effective_page req;
          limit = effective_limit req;
          skip = skip_of req;
          sortOrder = with_default (query_sortOrder req) ''asc'';
          wh = where_of req;
          (found, st1) = findMany wh skip limit (qval_to_string (Some (mappedSortBy req))) sortOrder st;
          (counted, st2) = count wh st1
      in case found of
           Inl err \<Rightarrow> (Inl err, st2)
         | Inr sts \<Rightarrow>
             (case counted of
                Inl err \<Rightarrow> (Inl err, st2)
              | Inr tot \<Rightarrow>
                  (Inr (res_json (BPage \<lparr>states = sts, page = pg,
                                         totalPages = js_ceil (js_div tot limit),
                                         totalStates = tot\<rparr>)), st2)))"

definition getStates :: "request \<Rightarrow> store \<Rightarrow> response \<times> store" where
  "getStates = asyncHandler getStates_fn"

subsection \<open>\<^verbatim>\<open>getState\<close>\<close>

definition getState_fn :: "request \<Rightarrow> store \<Rightarrow> (js_error + response) \<times> store" where
  "getState_fn req st =
     (let ident = parseInt (param_to_string (params_id req)) in
      if num_falsy ident then (Inl (createError 400 ''Invalid state ID''), st)
      else
        (let (state, st1) = findUnique ident st in
         case state of
           Inl err \<Rightarrow> (Inl err, st1)
         | Inr None \<Rightarrow> (Inl (createError 404 ''State not found''), st1)
         | Inr (Some r) \<Rightarrow> (Inr (res_json (BState r)), st1)))"

definition getState :: "request \<Rightarrow> store \<Rightarrow> response \<times> store" where
  "getState = asyncHandler getState_fn"

subsection \<open>\<^verbatim>\<open>createState\<close>\<close>

definition createState_fn :: "request \<Rightarrow> store \<Rightarrow> (js_error + response) \<times> store" where
  "createState_fn req st =
     (case createSchema (req_body req) of
        Inl err \<Rightarrow> (Inl err, st)
      | Inr name \<Rightarrow>
          (let (state, st1) = create name st
           in (Inr (res_status_json 201 (BState state)), st1)))"

definition createState :: "request \<Rightarrow> store \<Rightarrow> response \<times> store" where
  "createState = asyncHandler createState_fn"

subsection \<open>\<^verbatim>\<open>updateState\<close>\<close>

text \<open>The loop that deletes the keys of \<open>dataToUpdate\<close> whose value is \<^verbatim>\<open>undefined\<close>.\<close>

definition remove_undefined :: "(string \<times> ustring option) list \<Rightarrow> (string \<times> ustring option) list" where
  "remove_undefined data = filter (\<lambda>(k, v). v \<noteq> None) data"

definition updateState_fn :: "request \<Rightarrow> store \<Rightarrow> (js_error + response) \<times> store" where
  "updateState_fn req st =
     (let ident = parseInt (param_to_string (params_id req)) in
      if num_falsy ident then (Inl (createError 400 ''Invalid state ID''), st)
      else
        (case updateSchema (req_body req) of
           Inl err \<Rightarrow> (Inl err, st)
         | Inr validatedData \<Rightarrow>
             (let (existing, st1) = findUnique ident st in
              case existing of
                Inl err \<Rightarrow> (Inl err, st1)
              | Inr None \<Rightarrow> (Inl (createError 404 ''State not found''), st1)
              | Inr (Some e) \<Rightarrow>
                  (let dataToUpdate = remove_undefined validatedData;
                       (updated, st2) = update ident dataToUpdate st1
                   in case updated of
                        Inl err \<Rightarrow> (Inl err, st2)
                      | Inr r \<Rightarrow> (Inr (res_json (BState r)), st2)))))"

definition updateState :: "request \<Rightarrow> store \<Rightarrow> response \<times> store" where
  "updateState = asyncHandler updateState_fn"

subsection \<open>\<^verbatim>\<open>deleteState\<close>\<close>

definition deleteState_fn :: "request \<Rightarrow> store \<Rightarrow> (js_error + response) \<times> store" where
  "deleteState_fn req st =
     (let ident = parseInt (param_to_string (params_id req)) in
      if num_falsy ident then (Inl (createError 400 ''Invalid state ID''), st)
      else
        (let (existing, st1) = findUnique ident st in
         case existing of
           Inl err \<Rightarrow> (Inl err, st1)
         | Inr None \<Rightarrow> (Inl (createError 404 ''State not found''), st1)
         | Inr (Some e) \<Rightarrow>
             (let (deleted, st2) = delete ident st1
              in case deleted of
                   Inl err \<Rightarrow> (Inl err, st2)
                 | Inr u \<Rightarrow> (Inr (res_json (BMessage ''State deleted successfully'')), st2))))"

definition deleteState :: "request \<Rightarrow> store \<Rightarrow> response \<times> store" where
  "deleteState = asyncHandler deleteState_fn"

section \<open>The stores the operations reach\<close>

text \<open>
  The service starts on an empty table, with any clock and any of the store's
  parameters; every exported operation leads from a store to the next, and time may pass
  between two requests.
\<close>

inductive reachable :: "store \<Rightarrow> bool" where
  initial: "reachable \<lparr>rows = [], next_id = 1, now = t, calls = [], takes_id = ti,
                        takes_count = tc, text_contains = tx, client_text = ct\<rparr>"
| listed: "reachable st \<Longrightarrow> reachable (snd (getStates req st))"
| got: "reachable st \<Longrightarrow> reachable (snd (getState req st))"
| created: "reachable st \<Longrightarrow> reachable (snd (createState req st))"
| updated: "reachable st \<Longrightarrow> reachable (snd (updateState req st))"
| deleted: "reachable st \<Longrightarrow> reachable (snd (deleteState req st))"
| later: "reachable st \<Longrightarrow> now st \<le> t \<Longrightarrow> reachable (st\<lparr>now := t\<rparr>)"

section \<open>Example data\<close>

definition int32 :: "int \<Rightarrow> bool" where
  "int32 k = (- (2 ^ 31) \<le> k \<and> k < 2 ^ 31)"

text \<open>A binary collation: the text occurs in the name, code unit by code unit.\<close>

fun str_contains :: "ustring \<Rightarrow> ustring \<Rightarrow> bool" where
  "str_contains needle [] = (needle = [])"
| "str_contains needle (c # cs) =
     (take (length needle) (c # cs) = needle \<or> str_contains needle cs)"

definition empty_request :: request where
  "empty_request =
     \<lparr>params_id = None, query_page = None, query_limit = None, query_search = None,
      query_sortBy = None, query_sortOrder = None, req_body = None\<rparr>"

definition empty_store :: store where
  "empty_store =
     \<lparr>rows = [], next_id = 1, now = 5, calls = [], takes_id = int32, takes_count = int32,
      text_contains = str_contains, client_text = (\<lambda>c. ''Invalid invocation'')\<rparr>"

definition example_store :: store where
  "example_store =
     \<lparr>rows = [\<lparr>state_id = 1, stateName = units ''Goa'', createdAt = 5, updatedAt = 5\<rparr>,
              \<lparr>state_id = 2, stateName = units ''Assam'', createdAt = 6, updatedAt = 6\<rparr>],
      next_id = 3, now = 9, calls = [], takes_id = int32, takes_count = int32,
      text_contains = str_contains, client_text = (\<lambda>c. ''Invalid invocation'')\<rparr>"

definition page2_request :: request where
  "page2_request =
     empty_request\<lparr>query_page := Some (QStr (units ''2'')), query_limit := Some (QStr (units ''1''))\<rparr>"

definition search_request :: request where
  "search_request = empty_request\<lparr>query_search := Some (QStr (units ''ss''))\<rparr>"

definition bogus_sort_request :: request where
  "bogus_sort_request = empty_request\<lparr>query_sortBy := Some (QStr (units ''bogus''))\<rparr>"

definition bogus_sort_page2_request :: request where
  "bogus_sort_page2_request = page2_request\<lparr>query_sortBy := Some (QStr (units ''bogus''))\<rparr>"

definition negative_limit_request :: request where
  "negative_limit_request =
     empty_request\<lparr>query_page := Some (QStr (units ''3'')), query_limit := Some (QStr (units ''-5''))\<rparr>"

text \<open>A limit of 310 digits: 1 followed by 309 zeros.\<close>

definition long_limit_request :: request where
  "long_limit_request =
     empty_request\<lparr>query_limit := Some (QStr (49 # replicate 309 48))\<rparr>"

definition id_request :: "string \<Rightarrow> request" where
  "id_request s = empty_request\<lparr>params_id := Some (units s)\<rparr>"

definition body_request :: "string \<Rightarrow> json \<Rightarrow> request" where
  "body_request s b = empty_request\<lparr>params_id := Some (units s), req_body := Some b\<rparr>"

definition create_request :: "json \<Rightarrow> request" where
  "create_request b = empty_request\<lparr>req_body := Some b\<rparr>"

text \<open>The store after one state has been created on the empty table.\<close>

definition created_store :: store where
  "created_store =
     snd (createState (create_request (JObj [(units ''stateName'', JStr (units ''Goa''))]))
            empty_store)"

definition nonnumeric_request :: request where
  "nonnumeric_request =
     empty_request\<lparr>query_page := Some (QStr (units ''abc'')), query_limit := Some (QStr (units ''xyz''))\<rparr>"

text \<open>A handler function whose store call fails on a unique constraint over stateName.\<close>

definition unique_violation_fn :: "request \<Rightarrow> store \<Rightarrow> (js_error + response) \<times> store" where
  "unique_violation_fn req st =
     (Inl (prismaKnownRequestError ''P2002'' ''Unique constraint failed''
             (Some (TArr [''stateName'']))), st)"

section \<open>Rounding to binary64\<close>

lemma round_even_int: "round_even (of_int k) = k"
  by (simp add: round_even_def)

lemma round_even_ge_floor: "\<lfloor>z\<rfloor> \<le> round_even z"
  by (simp add: round_even_def Let_def)

lemma round_even_le_ceiling: "round_even z \<le> \<lceil>z\<rceil>"
proof -
  have "z = of_int \<lfloor>z\<rfloor> \<or> \<lceil>z\<rceil> = \<lfloor>z\<rfloor> + 1"
    by (metis ceiling_altdef)
  then show ?thesis
    by (auto simp add: round_even_def Let_def)
qed

lemma round_even_above_half:
  assumes "of_int m + 1 / 2 < z"
  shows "m + 1 \<le> round_even z"
proof (cases "m + 1 \<le> \<lfloor>z\<rfloor>")
  case True
  with round_even_ge_floor [of z] show ?thesis by linarith
next
  case False
  moreover have "m \<le> \<lfloor>z\<rfloor>" using assms by (simp add: le_floor_iff)
  ultimately have f: "\<lfloor>z\<rfloor> = m" by linarith
  with assms have "1 / 2 < z - of_int \<lfloor>z\<rfloor>" by simp
  then show ?thesis using f by (simp add: round_even_def Let_def)
qed

lemma binade_le: "binade n a \<le> n"
  by (induction n) auto

lemma pow2_less_imp: "(2::real) ^ a < 2 ^ b \<Longrightarrow> a < b"
  by (rule power_less_imp_less_exp [of 2]) simp_all

lemma pow2_split: "k \<le> n \<Longrightarrow> (2::real) ^ n = 2 ^ (n - k) * 2 ^ k"
  by (simp add: power_add [symmetric])

lemma binade_below:
  assumes "a * 2 ^ e_min < 2 ^ Suc m"
  shows "binade n a \<le> m"
proof (induction n)
  case 0
  then show ?case by simp
next
  case (Suc n)
  show ?case
  proof (cases "2 ^ Suc n \<le> a * 2 ^ e_min")
    case True
    with assms have "(2::real) ^ Suc n < 2 ^ Suc m" by linarith
    then have "Suc n < Suc m" by (rule pow2_less_imp)
    with True show ?thesis by simp
  next
    case False
    with Suc show ?thesis by simp
  qed
qed

lemma binade_above:
  assumes "2 ^ m \<le> a * 2 ^ e_min" and "m \<le> n"
  shows "m \<le> binade n a"
  using assms(2)
proof (induction n)
  case 0
  then show ?case by simp
next
  case (Suc n)
  show ?case
  proof (cases "2 ^ Suc n \<le> a * 2 ^ e_min")
    case True
    with Suc.prems show ?thesis by simp
  next
    case False
    with assms(1) have "m \<noteq> Suc n" by auto
    with Suc.prems have "m \<le> n" by simp
    with Suc.IH False show ?thesis by simp
  qed
qed

lemma binade_lower:
  "0 < binade n a \<Longrightarrow> 2 ^ binade n a \<le> a * 2 ^ e_min"
  by (induction n) (auto split: if_splits)

lemma ulp_pos: "0 < ulp x"
  by (simp add: ulp_def)

lemma huge_pos: "0 < huge"
  by (simp add: huge_def)

lemma safe_le_huge: "(2::real) ^ Suc p_bits \<le> huge"
  unfolding huge_def by (rule power_increasing) (simp_all add: p_bits_def e_max_def)

lemma ulp_inverse_small:
  assumes "\<bar>x\<bar> < 2 ^ Suc p_bits"
  shows "\<exists>k::nat. 1 / ulp x = 2 ^ k"
proof -
  have "\<bar>x\<bar> * 2 ^ e_min < 2 ^ Suc p_bits * 2 ^ e_min" using assms by simp
  also have "(2::real) ^ Suc p_bits * 2 ^ e_min = 2 ^ Suc (e_min + p_bits)"
    by (simp add: power_add)
  finally have j: "binade (e_min + e_max) \<bar>x\<bar> \<le> e_min + p_bits" by (rule binade_below)
  have "1 / ulp x = 2 ^ (e_min + p_bits) / 2 ^ binade (e_min + e_max) \<bar>x\<bar>"
    by (simp add: ulp_def)
  also have "\<dots> = 2 ^ (e_min + p_bits - binade (e_min + e_max) \<bar>x\<bar>)"
    using pow2_split [OF j] by simp
  finally show ?thesis ..
qed

lemma rnd_of_multiple:
  assumes "x / ulp x = of_int m" and "\<bar>x\<bar> < huge"
  shows "rnd x = Fin x"
proof -
  have "x = of_int m * ulp x" using assms(1) ulp_pos [of x] by (simp add: field_simps)
  then have "of_int (round_even (x / ulp x)) * ulp x = x"
    using assms(1) by (simp only: round_even_int)
  moreover have "\<not> huge \<le> x" and "\<not> x \<le> - huge" using assms(2) by auto
  ultimately show ?thesis by (simp add: rnd_def Let_def)
qed

text \<open>An integer below \<open>2 ^ 53\<close> in magnitude is a binary64 value.\<close>

lemma rnd_safe:
  assumes "x \<in> \<int>" and "\<bar>x\<bar> < 2 ^ Suc p_bits"
  shows "rnd x = Fin x"
proof -
  obtain k :: nat where k: "1 / ulp x = 2 ^ k" using ulp_inverse_small [OF assms(2)] by blast
  obtain n :: int where n: "x = of_int n" using assms(1) by (auto elim: Ints_cases)
  have "x / ulp x = x * (1 / ulp x)" by simp
  also have "\<dots> = x * 2 ^ k" by (simp only: k)
  also have "\<dots> = of_int (n * 2 ^ k)" by (simp add: n)
  finally have m: "x / ulp x = of_int (n * 2 ^ k)" .
  have "\<bar>x\<bar> < huge" using assms(2) safe_le_huge by linarith
  with m show ?thesis by (rule rnd_of_multiple)
qed

lemma rnd_nonneg:
  assumes "0 \<le> x"
  shows "rnd x = PInf \<or> (\<exists>y. rnd x = Fin y \<and> 0 \<le> y)"
proof -
  have "0 \<le> x / ulp x" using assms ulp_pos [of x] by simp
  then have "0 \<le> \<lfloor>x / ulp x\<rfloor>" by simp
  then have "0 \<le> round_even (x / ulp x)" using round_even_ge_floor [of "x / ulp x"] by linarith
  then have "0 \<le> of_int (round_even (x / ulp x)) * ulp x"
    using ulp_pos [of x] by simp
  with huge_pos show ?thesis by (auto simp add: rnd_def Let_def)
qed

lemma rnd_Fin_bound: "rnd x = Fin y \<Longrightarrow> \<bar>y\<bar> < huge"
  by (auto simp add: rnd_def Let_def split: if_splits)

text \<open>From \<open>2 ^ 1024\<close> on the value is \<^verbatim>\<open>Infinity\<close>.\<close>

lemma rnd_overflow:
  assumes "huge \<le> x"
  shows "rnd x = PInf"
proof -
  have "(2::real) ^ (e_min + e_max) \<le> huge * 2 ^ e_min"
    by (simp add: huge_def power_add)
  also have "\<dots> \<le> \<bar>x\<bar> * 2 ^ e_min" using assms by simp
  finally have "e_min + e_max \<le> binade (e_min + e_max) \<bar>x\<bar>" by (rule binade_above) simp
  with binade_le [of "e_min + e_max" "\<bar>x\<bar>"] have j: "binade (e_min + e_max) \<bar>x\<bar> = e_min + e_max" by simp
  have pe: "p_bits \<le> e_max" by (simp add: p_bits_def e_max_def)
  have "ulp x = 2 ^ (e_min + e_max) / 2 ^ (e_min + p_bits)" by (simp add: ulp_def j)
  also have "\<dots> = 2 ^ (e_max - p_bits)"
    using pow2_split [of "e_min + p_bits" "e_min + e_max"] pe by simp
  finally have u: "ulp x = 2 ^ (e_max - p_bits)" .
  have h: "huge = 2 ^ Suc p_bits * 2 ^ (e_max - p_bits)"
    using pe by (simp add: huge_def power_add [symmetric] del: power_Suc)
  have "(2::real) ^ Suc p_bits \<le> x / ulp x"
    using assms unfolding u h by (simp add: pos_le_divide_eq del: power_Suc)
  then have "(2::int) ^ Suc p_bits \<le> \<lfloor>x / ulp x\<rfloor>" by (simp add: le_floor_iff del: power_Suc)
  then have "(2::int) ^ Suc p_bits \<le> round_even (x / ulp x)"
    using round_even_ge_floor [of "x / ulp x"] by linarith
  then have "real_of_int ((2::int) ^ Suc p_bits) \<le> of_int (round_even (x / ulp x))"
    by (simp only: of_int_le_iff)
  then have "(2::real) ^ Suc p_bits \<le> of_int (round_even (x / ulp x))"
    by (simp del: power_Suc)
  then have "(2::real) ^ Suc p_bits * 2 ^ (e_max - p_bits) \<le> of_int (round_even (x / ulp x)) * ulp x"
    unfolding u by (intro mult_right_mono) simp_all
  then have "huge \<le> of_int (round_even (x / ulp x)) * ulp x"
    by (simp only: h)
  then show ?thesis by (simp add: rnd_def Let_def)
qed

text \<open>The binary64 value of an integer is an integer.\<close>

lemma rnd_integer:
  assumes "x \<in> \<int>" and "rnd x = Fin y"
  shows "y \<in> \<int>"
proof (cases "\<bar>x\<bar> < 2 ^ Suc p_bits")
  case True
  with assms show ?thesis using rnd_safe [of x] by simp
next
  case False
  then have "(2::real) ^ Suc p_bits * 2 ^ e_min \<le> \<bar>x\<bar> * 2 ^ e_min" by simp
  then have "(2::real) ^ (Suc (e_min + p_bits)) \<le> \<bar>x\<bar> * 2 ^ e_min" by (simp add: power_add)
  then have "Suc (e_min + p_bits) \<le> binade (e_min + e_max) \<bar>x\<bar>"
    by (rule binade_above) (simp add: p_bits_def e_max_def)
  then have j: "e_min + p_bits \<le> binade (e_min + e_max) \<bar>x\<bar>" by simp
  have u: "ulp x = 2 ^ (binade (e_min + e_max) \<bar>x\<bar> - (e_min + p_bits))"
    using pow2_split [OF j] by (simp add: ulp_def)
  have "y = of_int (round_even (x / ulp x)) * ulp x"
    using assms(2) by (auto simp add: rnd_def Let_def split: if_splits)
  then have "y = of_int (round_even (x / ulp x) * 2 ^ (binade (e_min + e_max) \<bar>x\<bar> - (e_min + p_bits)))"
    by (simp add: u)
  then show ?thesis by (metis Ints_of_int)
qed

lemma ulp_times_bound:
  assumes "0 < x" and "x = a / b" and "1 \<le> b" and "b < huge" and "a < 2 ^ Suc p_bits"
  shows "b * ulp x < 2"
proof (cases "binade (e_min + e_max) \<bar>x\<bar> = 0")
  case True
  then have u: "ulp x = 1 / 2 ^ (e_min + p_bits)" by (simp add: ulp_def)
  have "Suc e_max \<le> e_min + p_bits" by (simp add: e_max_def e_min_def p_bits_def)
  then have "(2::real) ^ Suc e_max \<le> 2 ^ (e_min + p_bits)"
    by (intro power_increasing) simp_all
  with assms(4) have "b < 2 ^ (e_min + p_bits)" unfolding huge_def by linarith
  then have "b * ulp x < 1" unfolding u by (simp add: field_simps)
  then show ?thesis by simp
next
  case False
  then have "2 ^ binade (e_min + e_max) \<bar>x\<bar> \<le> \<bar>x\<bar> * 2 ^ e_min"
    by (intro binade_lower) simp
  then have "ulp x \<le> \<bar>x\<bar> * 2 ^ e_min / 2 ^ (e_min + p_bits)"
    unfolding ulp_def by (simp add: divide_right_mono)
  also have "\<dots> = x / 2 ^ p_bits" using assms(1) by (simp add: power_add)
  finally have "ulp x \<le> x / 2 ^ p_bits" .
  then have "b * ulp x \<le> b * (x / 2 ^ p_bits)"
    using assms(3) by (intro mult_left_mono) simp_all
  also have "\<dots> = a / 2 ^ p_bits" using assms(2,3) by simp
  also have "\<dots> < 2 ^ Suc p_bits / 2 ^ p_bits"
    using assms(5) by (intro divide_strict_right_mono) simp_all
  also have "\<dots> = 2" by simp
  finally show ?thesis .
qed

text \<open>
  \<^verbatim>\<open>Math.ceil(a / b)\<close> on a count \<open>a\<close> below \<open>2 ^ 53\<close> and an integer \<open>b\<close> of at least 1
  is the ceiling of the quotient: rounding the quotient never reaches the integer below.
\<close>

lemma ceil_rnd_quot:
  assumes "a \<in> \<int>" and "b \<in> \<int>" and "0 \<le> a" and "a < 2 ^ Suc p_bits"
    and "1 \<le> b" and "b < huge"
  shows "\<exists>q. rnd (a / b) = Fin q \<and> \<lceil>q\<rceil> = \<lceil>a / b\<rceil>"
proof (cases "a = 0")
  case True
  have "rnd 0 = Fin 0" by (rule rnd_safe) simp_all
  with True show ?thesis by simp
next
  case False
  define x where "x = a / b"
  define K where "K = \<lceil>x\<rceil>"
  define u where "u = ulp x"
  define y where "y = of_int (round_even (x / u)) * u"
  have apos: "0 < a" using False assms(3) by simp
  have xpos: "0 < x" using apos assms(5) by (simp add: x_def)
  have xa: "x \<le> a"
  proof -
    have "a * 1 \<le> a * b" using assms(3,5) by (intro mult_left_mono) simp_all
    then show ?thesis using assms(5) by (simp add: x_def field_simps)
  qed
  have xs: "\<bar>x\<bar> < 2 ^ Suc p_bits" using xpos xa assms(4) by linarith
  have upos: "0 < u" by (simp add: u_def ulp_pos)
  obtain k :: nat where k: "1 / u = 2 ^ k"
    using ulp_inverse_small [OF xs] unfolding u_def by blast
  have scale: "\<And>M::int. of_int M / u = of_int (M * 2 ^ k)"
  proof -
    fix M :: int
    have "of_int M / u = of_int M * (1 / u)" by simp
    also have "\<dots> = of_int M * 2 ^ k" by (simp only: k)
    finally show "of_int M / u = of_int (M * 2 ^ k)" by simp
  qed
  have unscale: "\<And>M::int. of_int (M * 2 ^ k) * u = of_int M"
  proof -
    fix M :: int
    have "of_int (M * 2 ^ k) * u = (of_int M / u) * u" by (simp only: scale)
    also have "\<dots> = of_int M" using upos by simp
    finally show "of_int (M * 2 ^ k) * u = of_int M" .
  qed
  have xK: "x \<le> of_int K" by (simp add: K_def)
  have Kx: "of_int K - 1 < x" unfolding K_def by linarith
  have "x / u \<le> of_int K / u" using xK upos by (simp add: divide_right_mono)
  then have "x / u \<le> of_int (K * 2 ^ k)" by (simp only: scale)
  then have "\<lceil>x / u\<rceil> \<le> K * 2 ^ k" by (simp only: ceiling_le_iff)
  then have "round_even (x / u) \<le> K * 2 ^ k"
    using round_even_le_ceiling [of "x / u"] by linarith
  then have "real_of_int (round_even (x / u)) \<le> real_of_int (K * 2 ^ k)"
    by (simp only: of_int_le_iff)
  then have "of_int (round_even (x / u)) * u \<le> of_int (K * 2 ^ k) * u"
    using upos by (intro mult_right_mono) (assumption, simp)
  then have yK: "y \<le> of_int K" by (simp only: y_def unscale)
  have Ky: "of_int K - 1 < y"
  proof (cases "x = of_int K")
    case True
    then have "x / u = of_int (K * 2 ^ k)" by (simp only: scale)
    then have "round_even (x / u) = K * 2 ^ k" by (simp only: round_even_int)
    then have "y = of_int K" by (simp only: y_def unscale)
    then show ?thesis by simp
  next
    case False
    obtain ai :: int where ai: "a = of_int ai" using assms(1) by (auto elim: Ints_cases)
    obtain bi :: int where bi: "b = of_int bi" using assms(2) by (auto elim: Ints_cases)
    have bpos: "0 < b" using assms(5) by simp
    have "(of_int K - 1) * b < a" using Kx bpos by (simp add: x_def pos_less_divide_eq)
    then have "real_of_int ((K - 1) * bi) < real_of_int ai" by (simp add: ai bi)
    then have "(K - 1) * bi < ai" by (simp only: of_int_less_iff)
    then have "(K - 1) * bi + 1 \<le> ai" by simp
    then have "real_of_int ((K - 1) * bi + 1) \<le> real_of_int ai" by (simp only: of_int_le_iff)
    then have "(of_int K - 1) * b + 1 \<le> a" by (simp add: ai bi)
    then have gap: "1 / b \<le> x - (of_int K - 1)"
      using bpos by (simp add: x_def field_simps)
    have "b * u < 2"
      unfolding u_def using xpos _ assms(5,6,4) by (rule ulp_times_bound) (simp add: x_def)
    then have "u / 2 < 1 / b" using bpos by (simp add: field_simps)
    with gap have "u / 2 < x - (of_int K - 1)" by linarith
    then have "1 / 2 < (x - (of_int K - 1)) / u" using upos by (simp add: field_simps)
    also have "(x - (of_int K - 1)) / u = x / u - of_int (K - 1) / u"
      by (simp add: diff_divide_distrib)
    also have "\<dots> = x / u - of_int ((K - 1) * 2 ^ k)" by (simp only: scale)
    finally have "of_int ((K - 1) * 2 ^ k) + 1 / 2 < x / u" by linarith
    then have "(K - 1) * 2 ^ k + 1 \<le> round_even (x / u)" by (rule round_even_above_half)
    then have "real_of_int ((K - 1) * 2 ^ k + 1) \<le> of_int (round_even (x / u))"
      by (simp only: of_int_le_iff)
    then have "real_of_int ((K - 1) * 2 ^ k + 1) * u \<le> of_int (round_even (x / u)) * u"
      using upos by (intro mult_right_mono) (assumption, simp)
    moreover have "real_of_int ((K - 1) * 2 ^ k + 1) * u = of_int (K - 1) + u"
    proof -
      have "real_of_int ((K - 1) * 2 ^ k + 1) * u = of_int ((K - 1) * 2 ^ k) * u + u"
        by (simp add: algebra_simps)
      then show ?thesis by (simp only: unscale)
    qed
    ultimately have "of_int (K - 1) + u \<le> y" by (simp only: y_def)
    with upos show ?thesis by simp
  qed
  have "\<lceil>y\<rceil> = K" using Ky yK by (intro ceiling_unique) simp_all
  moreover have "rnd x = Fin y"
  proof -
    have "of_int K \<le> a"
    proof -
      obtain ai :: int where ai: "a = of_int ai" using assms(1) by (auto elim: Ints_cases)
      have "\<lceil>x\<rceil> \<le> ai" using xa by (simp add: ai ceiling_le_iff)
      then show ?thesis by (simp add: K_def ai)
    qed
    with yK assms(4) safe_le_huge have "y < huge" by linarith
    moreover have "1 \<le> K" using xpos by (simp add: K_def)
    then have "(1::real) \<le> of_int K" by simp
    with Ky have "0 < y" by linarith
    ultimately have "\<not> huge \<le> y" and "\<not> y \<le> - huge" using huge_pos by simp_all
    then show ?thesis by (simp add: rnd_def Let_def y_def u_def)
  qed
  ultimately show ?thesis by (auto simp add: K_def x_def)
qed

text \<open>The same facts with the bounds written out, for evaluation.\<close>

lemma rnd_small: "x \<in> \<int> \<Longrightarrow> \<bar>x\<bar> < 9007199254740992 \<Longrightarrow> rnd x = Fin x"
  using rnd_safe [of x] by (simp add: p_bits_def)

section \<open>Evaluation rules\<close>

lemmas parse_defs =
  parseInt_def is_ws_def is_digit_def digit_val_def digits_value_def units_def
  num_or_def num_falsy_def param_to_string_def rnd_small

lemmas error_defs =
  createError_def zodError_def prismaValidationError_def prismaKnownRequestError_def
  plainError_def catch_error_def res_json_def res_status_json_def asyncHandler_def

lemmas store_defs =
  findMany_def count_def findUnique_def create_def update_def delete_def log_call_def
  column_of_def sort_order_of_def order_rows_def as_int_def id_arg_def take_arg_def
  skip_arg_def slice_rows_def int32_def

lemmas schema_defs =
  createSchema_def updateSchema_def updateObject_def string_min1_max255_def
  not_an_object_def remove_undefined_def

lemmas query_defs =
  effective_page_def effective_limit_def skip_of_def with_default_def mappedSortBy_def
  where_of_def

lemmas example_defs =
  empty_request_def empty_store_def example_store_def page2_request_def search_request_def
  bogus_sort_request_def bogus_sort_page2_request_def long_limit_request_def
  id_request_def body_request_def create_request_def unique_violation_fn_def
  nonnumeric_request_def negative_limit_request_def

lemmas handler_defs =
  getStates_def getStates_fn_def getState_def getState_fn_def createState_def
  createState_fn_def updateState_def updateState_fn_def deleteState_def deleteState_fn_def

section \<open>Error normalization\<close>

lemma fst_asyncHandler:
  "fst (asyncHandler fn req st) =
     (case fst (fn req st) of Inl err \<Rightarrow> catch_error err | Inr res \<Rightarrow> res)"
  by (simp add: asyncHandler_def split: prod.splits sum.splits)

lemma snd_asyncHandler: "snd (asyncHandler fn req st) = snd (fn req st)"
  by (simp add: asyncHandler_def split: prod.splits sum.splits)

lemma catch_error_fallback:
  "\<not> (err_status err = Some 400 \<and> err_expose err) \<Longrightarrow>
   err_name err \<noteq> ''PrismaClientValidationError'' \<Longrightarrow>
   \<not> (err_known_request err \<and> err_code err = Some ''P2002'' \<and> target_truthy (err_target err)) \<Longrightarrow>
   catch_error err = \<lparr>status = 500, body = BErrors (ErrMessage ''Internal Server Error'')\<rparr>"
  by (auto simp add: catch_error_def res_status_json_def)

lemma catch_error_P2002:
  "tgt = TStr c \<and> c \<noteq> [] \<or> tgt = TArr (c # cs) \<Longrightarrow>
   catch_error (prismaKnownRequestError ''P2002'' msg (Some tgt)) =
     \<lparr>status = 400, body = BErrors (ErrUnique c (''A record with that '' @ c @ '' already exists.''))\<rparr>"
  by (auto simp add: catch_error_def res_status_json_def prismaKnownRequestError_def)

lemma catch_error_prismaValidationError:
  "catch_error (prismaValidationError m) = \<lparr>status = 400, body = BErrors (ErrMessage m)\<rparr>"
  by (simp add: catch_error_def prismaValidationError_def res_status_json_def)

text \<open>The thrown errors of the handlers and of the client that the catch callback does
  not know.\<close>

lemma catch_error_not_found:
  "catch_error (createError 404 m) =
     \<lparr>status = 500, body = BErrors (ErrMessage ''Internal Server Error'')\<rparr>"
  by (simp add: catch_error_def createError_def res_status_json_def)

lemma catch_error_zodError:
  "catch_error (zodError issues) =
     \<lparr>status = 500, body = BErrors (ErrMessage ''Internal Server Error'')\<rparr>"
  by (simp add: catch_error_def zodError_def res_status_json_def)

lemma catch_error_plainError:
  "catch_error (plainError m) =
     \<lparr>status = 500, body = BErrors (ErrMessage ''Internal Server Error'')\<rparr>"
  by (simp add: catch_error_def plainError_def res_status_json_def)

lemma catch_error_bad_request:
  "catch_error (createError 400 m) = \<lparr>status = 400, body = BErrors (ErrMessage m)\<rparr>"
  by (simp add: catch_error_def createError_def res_status_json_def)

text \<open>
  C3. For every handler function wrapped by \<^verbatim>\<open>asyncHandler\<close>: when it throws the
  store's request error P2002 whose target is a column \<open>c\<close> (a non-empty string, or an
  array with first element \<open>c\<close>), the response is 400 with the per-field error
  \<^verbatim>\<open>{ [c]: { type: "unique", message: "A record with that c already exists." } }\<close>; when
  it throws anything that is not an exposed 400, not a store validation error and not a
  P2002 error with a target, the response is 500 with the message
  \<^verbatim>\<open>Internal Server Error\<close> only.
\<close>

theorem C3_error_normalization:
  assumes "fn req st = (Inl err, st')"
  shows "((tgt = TStr c \<and> c \<noteq> [] \<or> tgt = TArr (c # cs)) \<and>
          err = prismaKnownRequestError ''P2002'' msg (Some tgt) \<longrightarrow>
          asyncHandler fn req st =
            (\<lparr>status = 400,
              body = BErrors (ErrUnique c (''A record with that '' @ c @ '' already exists.''))\<rparr>, st')) \<and>
         (\<not> (err_status err = Some 400 \<and> err_expose err) \<and>
          err_name err \<noteq> ''PrismaClientValidationError'' \<and>
          \<not> (err_known_request err \<and> err_code err = Some ''P2002'' \<and> target_truthy (err_target err)) \<longrightarrow>
          asyncHandler fn req st =
            (\<lparr>status = 500, body = BErrors (ErrMessage ''Internal Server Error'')\<rparr>, st'))"
  using assms catch_error_fallback [of err] catch_error_P2002 [of tgt c cs msg]
  by (auto simp add: asyncHandler_def)

theorem C3_error_normalization_witness:
  "asyncHandler unique_violation_fn empty_request example_store =
     (\<lparr>status = 400,
       body = BErrors (ErrUnique ''stateName'' ''A record with that stateName already exists.'')\<rparr>,
      example_store) \<and>
   asyncHandler getState_fn (id_request ''7'') example_store =
     (\<lparr>status = 500, body = BErrors (ErrMessage ''Internal Server Error'')\<rparr>,
      log_call (FindUnique (Fin 7)) example_store)"
proof -
  have u: "unique_violation_fn empty_request example_store =
      (Inl (prismaKnownRequestError ''P2002'' ''Unique constraint failed''
              (Some (TArr [''stateName'']))), example_store)"
    by (simp add: unique_violation_fn_def)
  have g: "getState_fn (id_request ''7'') example_store =
      (Inl (createError 404 ''State not found''), log_call (FindUnique (Fin 7)) example_store)"
    by (simp add: getState_fn_def example_defs parse_defs store_defs)
  have e: "\<not> (err_status (createError 404 ''State not found'') = Some 400 \<and>
               err_expose (createError 404 ''State not found'')) \<and>
           err_name (createError 404 ''State not found'') \<noteq> ''PrismaClientValidationError'' \<and>
           \<not> (err_known_request (createError 404 ''State not found'') \<and>
               err_code (createError 404 ''State not found'') = Some ''P2002'' \<and>
               target_truthy (err_target (createError 404 ''State not found'')))"
    by (simp add: createError_def)
  show ?thesis
    using
      C3_error_normalization [where fn = unique_violation_fn and req = empty_request
        and st = example_store and tgt = "TArr [''stateName'']" and c = "''stateName''"
        and cs = "[]" and msg = "''Unique constraint failed''", OF u]
      C3_error_normalization [where fn = getState_fn and req = "id_request ''7''"
        and st = example_store, OF g] e
    by simp
qed

section \<open>The operations on one record\<close>

subsection \<open>The schemas\<close>

lemma updateSchema_valid:
  assumes "b = Some (JObj kvs)" "map_of kvs (units ''stateName'') = Some (JStr s)"
    "1 \<le> length s" "length s \<le> 255"
  shows "updateSchema b = Inr [(''stateName'', Some s)]"
  using assms by (simp add: schema_defs Suc_le_eq)

lemma updateSchema_invalid:
  assumes "\<not> (\<exists>kvs s. b = Some (JObj kvs) \<and> map_of kvs (units ''stateName'') = Some (JStr s) \<and>
                1 \<le> length s \<and> length s \<le> 255)"
  shows "\<exists>issues. issues \<noteq> [] \<and> updateSchema b = Inl (zodError issues)"
  using assms
  by (auto simp add: schema_defs Let_def Suc_le_eq split: option.splits json.splits)

lemma updateSchema_Inl:
  assumes "updateSchema b = Inl e"
  shows "\<exists>issues. e = zodError issues"
proof (cases "\<exists>kvs s. b = Some (JObj kvs) \<and> map_of kvs (units ''stateName'') = Some (JStr s) \<and>
                1 \<le> length s \<and> length s \<le> 255")
  case True
  then show ?thesis using assms updateSchema_valid [of b] by force
next
  case False
  then show ?thesis using assms updateSchema_invalid [of b] by force
qed

lemma createSchema_valid:
  assumes "b = Some (JObj kvs)" "map_of kvs (units ''stateName'') = Some (JStr s)"
    "1 \<le> length s" "length s \<le> 255"
  shows "createSchema b = Inr s"
  using assms by (simp add: schema_defs Suc_le_eq)

lemma createSchema_invalid:
  assumes "\<not> (\<exists>kvs s. b = Some (JObj kvs) \<and> map_of kvs (units ''stateName'') = Some (JStr s) \<and>
                1 \<le> length s \<and> length s \<le> 255)"
  shows "\<exists>issues. issues \<noteq> [] \<and> createSchema b = Inl (zodError issues)"
  using assms
  by (auto simp add: schema_defs Let_def Suc_le_eq split: option.splits json.splits)

lemma remove_undefined_defined: "\<forall>(k, x) \<in> set (remove_undefined d). x \<noteq> None"
  by (auto simp add: remove_undefined_def)

subsection \<open>The lookup\<close>

lemma snd_findUnique: "snd (findUnique n st) = log_call (FindUnique n) st"
  by (simp add: findUnique_def Let_def split: option.splits)

lemma findUnique_Inr:
  "fst (findUnique n st) = Inr x \<longleftrightarrow>
     (\<exists>k. id_arg st n = Some k \<and> x = find (\<lambda>r. state_id r = k) (rows st))"
  by (auto simp add: findUnique_def Let_def split: option.splits)

lemma id_arg_log_call: "id_arg (log_call c st) n = id_arg st n"
  by (cases "as_int n") (simp_all add: id_arg_def log_call_def)

lemma findUnique_pair:
  "fst (findUnique n st) = x \<Longrightarrow> findUnique n st = (x, log_call (FindUnique n) st)"
  using snd_findUnique [of n st] by (metis prod.collapse)

subsection \<open>The handler functions by cases\<close>

lemma getState_fn_cases:
  "getState_fn req st =
     (let n = parseInt (param_to_string (params_id req)) in
      if num_falsy n then (Inl (createError 400 ''Invalid state ID''), st)
      else (case fst (findUnique n st) of
              Inl err \<Rightarrow> (Inl err, log_call (FindUnique n) st)
            | Inr None \<Rightarrow> (Inl (createError 404 ''State not found''), log_call (FindUnique n) st)
            | Inr (Some r) \<Rightarrow> (Inr (res_json (BState r)), log_call (FindUnique n) st)))"
proof -
  define n where "n = parseInt (param_to_string (params_id req))"
  obtain x where fu: "findUnique n st = (x, log_call (FindUnique n) st)"
    using findUnique_pair by blast
  then have fx: "fst (findUnique n st) = x" by simp
  show ?thesis
    by (simp add: getState_fn_def Let_def n_def [symmetric] fx fu)
qed

lemma delete_found:
  assumes "fst (findUnique n st) = Inr (Some r)"
  shows "delete n (log_call (FindUnique n) st) =
        (Inr (), st\<lparr>rows := filter (\<lambda>x. state_id x \<noteq> state_id r) (rows st),
                    calls := calls st @ [FindUnique n, Delete n]\<rparr>)"
proof -
  obtain k where k: "id_arg st n = Some k"
    and f: "find (\<lambda>r. state_id r = k) (rows st) = Some r"
    using assms findUnique_Inr [of n st "Some r"] by force
  from f have rk: "state_id r = k" by (metis (mono_tags, lifting) find_Some_iff)
  have "id_arg (log_call (FindUnique n) st) n = Some k" using k by (simp add: id_arg_log_call)
  moreover have "rows (log_call (FindUnique n) st) = rows st" by (simp add: log_call_def)
  ultimately show ?thesis
    using f rk by (simp add: delete_def Let_def log_call_def)
qed

lemma update_found:
  assumes "fst (findUnique n st) = Inr (Some r)"
  shows "update n d (log_call (FindUnique n) st) =
        (Inr (r\<lparr>stateName := (case map_of d ''stateName'' of
                                           Some (Some v) \<Rightarrow> v | _ \<Rightarrow> stateName r),
                         updatedAt := now st\<rparr>),
         st\<lparr>rows := map (\<lambda>x. if state_id x = state_id r
                                then r\<lparr>stateName := (case map_of d ''stateName'' of
                                           Some (Some v) \<Rightarrow> v | _ \<Rightarrow> stateName r),
                                      updatedAt := now st\<rparr>
                                else x) (rows st),
                       now := now st + 1,
                       calls := calls st @ [FindUnique n, Update n d]\<rparr>)"
proof -
  obtain k where k: "id_arg st n = Some k"
    and f: "find (\<lambda>r. state_id r = k) (rows st) = Some r"
    using assms findUnique_Inr [of n st "Some r"] by force
  from f have rk: "state_id r = k" by (metis (mono_tags, lifting) find_Some_iff)
  have "id_arg (log_call (FindUnique n) st) n = Some k" using k by (simp add: id_arg_log_call)
  moreover have "rows (log_call (FindUnique n) st) = rows st" by (simp add: log_call_def)
  moreover have "now (log_call (FindUnique n) st) = now st" by (simp add: log_call_def)
  ultimately show ?thesis
    using f rk by (simp add: update_def Let_def log_call_def)
qed

lemma deleteState_fn_cases:
  "deleteState_fn req st =
     (let n = parseInt (param_to_string (params_id req)) in
      if num_falsy n then (Inl (createError 400 ''Invalid state ID''), st)
      else (case fst (findUnique n st) of
              Inl err \<Rightarrow> (Inl err, log_call (FindUnique n) st)
            | Inr None \<Rightarrow> (Inl (createError 404 ''State not found''), log_call (FindUnique n) st)
            | Inr (Some r) \<Rightarrow>
                (Inr (res_json (BMessage ''State deleted successfully'')),
                 st\<lparr>rows := filter (\<lambda>x. state_id x \<noteq> state_id r) (rows st),
                    calls := calls st @ [FindUnique n, Delete n]\<rparr>)))"
proof -
  define n where "n = parseInt (param_to_string (params_id req))"
  obtain x where fu: "findUnique n st = (x, log_call (FindUnique n) st)"
    using findUnique_pair by blast
  then have fx: "fst (findUnique n st) = x" by simp
  show ?thesis
  proof (cases x)
    case (Inl err)
    then show ?thesis
      by (simp add: deleteState_fn_def Let_def n_def [symmetric] fx fu)
  next
    case (Inr y)
    show ?thesis
    proof (cases y)
      case None
      with Inr show ?thesis
        by (simp add: deleteState_fn_def Let_def n_def [symmetric] fx fu)
    next
      case (Some r)
      with Inr fx have "fst (findUnique n st) = Inr (Some r)" by simp
      then have d: "delete n (log_call (FindUnique n) st) =
        (Inr (), st\<lparr>rows := filter (\<lambda>x. state_id x \<noteq> state_id r) (rows st),
                    calls := calls st @ [FindUnique n, Delete n]\<rparr>)"
        by (rule delete_found)
      from Some Inr show ?thesis
        by (simp add: deleteState_fn_def Let_def n_def [symmetric] fx fu d)
    qed
  qed
qed

lemma updateState_fn_cases:
  "updateState_fn req st =
     (let n = parseInt (param_to_string (params_id req)) in
      if num_falsy n then (Inl (createError 400 ''Invalid state ID''), st)
      else (case updateSchema (req_body req) of
              Inl err \<Rightarrow> (Inl err, st)
            | Inr data \<Rightarrow>
               (case fst (findUnique n st) of
                  Inl err \<Rightarrow> (Inl err, log_call (FindUnique n) st)
                | Inr None \<Rightarrow> (Inl (createError 404 ''State not found''), log_call (FindUnique n) st)
                | Inr (Some r) \<Rightarrow>
                   (Inr (res_json (BState
                      (r\<lparr>stateName := (case map_of (remove_undefined data) ''stateName'' of
                                           Some (Some v) \<Rightarrow> v | _ \<Rightarrow> stateName r),
                         updatedAt := now st\<rparr>))),
                    st\<lparr>rows := map (\<lambda>x. if state_id x = state_id r
                                then r\<lparr>stateName := (case map_of (remove_undefined data) ''stateName'' of
                                           Some (Some v) \<Rightarrow> v | _ \<Rightarrow> stateName r),
                                      updatedAt := now st\<rparr>
                                else x) (rows st),
                       now := now st + 1,
                       calls := calls st @ [FindUnique n, Update n (remove_undefined data)]\<rparr>))))"
proof -
  define n where "n = parseInt (param_to_string (params_id req))"
  obtain x where fu: "findUnique n st = (x, log_call (FindUnique n) st)"
    using findUnique_pair by blast
  then have fx: "fst (findUnique n st) = x" by simp
  show ?thesis
  proof (cases "updateSchema (req_body req)")
    case (Inl err)
    then show ?thesis by (simp add: updateState_fn_def Let_def)
  next
    case data: (Inr data)
    show ?thesis
    proof (cases x)
      case (Inl err)
      with data show ?thesis
        by (simp add: updateState_fn_def Let_def n_def [symmetric] fx fu)
    next
      case (Inr y)
      show ?thesis
      proof (cases y)
        case None
        with Inr data show ?thesis
          by (simp add: updateState_fn_def Let_def n_def [symmetric] fx fu)
      next
        case (Some r)
        with Inr fx have "fst (findUnique n st) = Inr (Some r)" by simp
        then have u: "update n (remove_undefined data) (log_call (FindUnique n) st) =
          (Inr (r\<lparr>stateName := (case map_of (remove_undefined data) ''stateName'' of
                                           Some (Some v) \<Rightarrow> v | _ \<Rightarrow> stateName r),
                         updatedAt := now st\<rparr>),
           st\<lparr>rows := map (\<lambda>x. if state_id x = state_id r
                                then r\<lparr>stateName := (case map_of (remove_undefined data) ''stateName'' of
                                           Some (Some v) \<Rightarrow> v | _ \<Rightarrow> stateName r),
                                      updatedAt := now st\<rparr>
                                else x) (rows st),
                       now := now st + 1,
                       calls := calls st @ [FindUnique n, Update n (remove_undefined data)]\<rparr>)"
          by (rule update_found)
        from Some Inr data show ?thesis
          by (simp add: updateState_fn_def Let_def n_def [symmetric] fx fu u)
      qed
    qed
  qed
qed

subsection \<open>The responses of the exported operations\<close>

lemma invalid_id_responses:
  assumes "num_falsy (parseInt (param_to_string (params_id req)))"
  shows "getState req st = (\<lparr>status = 400, body = BErrors (ErrMessage ''Invalid state ID'')\<rparr>, st)"
    and "updateState req st = (\<lparr>status = 400, body = BErrors (ErrMessage ''Invalid state ID'')\<rparr>, st)"
    and "deleteState req st = (\<lparr>status = 400, body = BErrors (ErrMessage ''Invalid state ID'')\<rparr>, st)"
  using assms
  by (simp_all add: getState_def updateState_def deleteState_def asyncHandler_def
      getState_fn_def updateState_fn_def deleteState_fn_def catch_error_bad_request)

lemma getState_missing:
  assumes "\<not> num_falsy (parseInt (param_to_string (params_id req)))"
    and "fst (findUnique (parseInt (param_to_string (params_id req))) st) = Inr None"
  shows "getState req st =
           (\<lparr>status = 500, body = BErrors (ErrMessage ''Internal Server Error'')\<rparr>,
            log_call (FindUnique (parseInt (param_to_string (params_id req)))) st)"
  using assms
  by (simp add: getState_def asyncHandler_def getState_fn_cases catch_error_not_found)

lemma getState_found:
  assumes "\<not> num_falsy (parseInt (param_to_string (params_id req)))"
    and "fst (findUnique (parseInt (param_to_string (params_id req))) st) = Inr (Some r)"
  shows "getState req st =
           (\<lparr>status = 200, body = BState r\<rparr>,
            log_call (FindUnique (parseInt (param_to_string (params_id req)))) st)"
  using assms
  by (simp add: getState_def asyncHandler_def getState_fn_cases res_json_def)

lemma deleteState_missing:
  assumes "\<not> num_falsy (parseInt (param_to_string (params_id req)))"
    and "fst (findUnique (parseInt (param_to_string (params_id req))) st) = Inr None"
  shows "deleteState req st =
           (\<lparr>status = 500, body = BErrors (ErrMessage ''Internal Server Error'')\<rparr>,
            log_call (FindUnique (parseInt (param_to_string (params_id req)))) st)"
  using assms
  by (simp add: deleteState_def asyncHandler_def deleteState_fn_cases catch_error_not_found)

lemma createState_outcomes:
  "createState req st =
     (case createSchema (req_body req) of
        Inl err \<Rightarrow> (catch_error err, st)
      | Inr name \<Rightarrow>
          (\<lparr>status = 201,
            body = BState \<lparr>state_id = next_id st, stateName = name,
                           createdAt = now st, updatedAt = now st\<rparr>\<rparr>,
           st\<lparr>rows := rows st @ [\<lparr>state_id = next_id st, stateName = name,
                                   createdAt = now st, updatedAt = now st\<rparr>],
              next_id := next_id st + 1,
              now := now st + 1,
              calls := calls st @ [Create name]\<rparr>))"
  by (simp add: createState_def asyncHandler_def createState_fn_def create_def log_call_def
      res_status_json_def Let_def split: sum.splits)

lemma createState_valid:
  assumes "req_body req = Some (JObj kvs)"
    and "map_of kvs (units ''stateName'') = Some (JStr s)"
    and "1 \<le> length s" and "length s \<le> 255"
  shows "createState req st =
           (\<lparr>status = 201,
             body = BState \<lparr>state_id = next_id st, stateName = s,
                            createdAt = now st, updatedAt = now st\<rparr>\<rparr>,
            st\<lparr>rows := rows st @ [\<lparr>state_id = next_id st, stateName = s,
                                    createdAt = now st, updatedAt = now st\<rparr>],
               next_id := next_id st + 1,
               now := now st + 1,
               calls := calls st @ [Create s]\<rparr>)"
  using createSchema_valid [OF assms] by (simp add: createState_outcomes)

lemma createState_invalid:
  assumes "\<not> (\<exists>kvs s. req_body req = Some (JObj kvs) \<and>
                map_of kvs (units ''stateName'') = Some (JStr s) \<and>
                1 \<le> length s \<and> length s \<le> 255)"
  shows "createState req st =
           (\<lparr>status = 500, body = BErrors (ErrMessage ''Internal Server Error'')\<rparr>, st)"
proof -
  from assms obtain issues where "createSchema (req_body req) = Inl (zodError issues)"
    using createSchema_invalid [of "req_body req"] by blast
  then show ?thesis by (simp add: createState_outcomes catch_error_zodError)
qed

lemma updateState_missing_or_invalid:
  assumes "\<not> num_falsy (parseInt (param_to_string (params_id req)))"
    and "fst (findUnique (parseInt (param_to_string (params_id req))) st) = Inr None"
  shows "fst (updateState req st) =
           \<lparr>status = 500, body = BErrors (ErrMessage ''Internal Server Error'')\<rparr>"
proof (cases "updateSchema (req_body req)")
  case (Inl e)
  then obtain issues where "e = zodError issues" using updateSchema_Inl by blast
  with Inl assms show ?thesis
    by (simp add: updateState_def fst_asyncHandler updateState_fn_cases catch_error_zodError)
next
  case (Inr data)
  with assms show ?thesis
    by (simp add: updateState_def fst_asyncHandler updateState_fn_cases catch_error_not_found)
qed

section \<open>Update of a missing record\<close>

text \<open>
  C1, as amended. For an update request whose identifier parses to a nonzero number that
  matches no record, the body is validated before the record is looked up. When the body
  is an object whose stateName is a string of 1 to 255 characters, the handler looks the
  record up and throws the not-found error (404, \<^verbatim>\<open>State not found\<close>); the store is
  not changed. For every other body (empty, no stateName, a stateName that is not such a
  string) the handler throws the validation error of the schema, and the store is not
  consulted.
\<close>

theorem C1_update_missing_record:
  assumes "\<not> num_falsy (parseInt (param_to_string (params_id req)))"
    and "fst (findUnique (parseInt (param_to_string (params_id req))) st) = Inr None"
  shows "(\<forall>kvs s. req_body req = Some (JObj kvs) \<and>
             map_of kvs (units ''stateName'') = Some (JStr s) \<and>
             1 \<le> length s \<and> length s \<le> 255 \<longrightarrow>
            updateState_fn req st =
              (Inl (createError 404 ''State not found''),
               log_call (FindUnique (parseInt (param_to_string (params_id req)))) st)) \<and>
         (\<not> (\<exists>kvs s. req_body req = Some (JObj kvs) \<and>
                map_of kvs (units ''stateName'') = Some (JStr s) \<and>
                1 \<le> length s \<and> length s \<le> 255) \<longrightarrow>
            (\<exists>issues. issues \<noteq> [] \<and> updateState_fn req st = (Inl (zodError issues), st)))"
proof -
  have a: "\<forall>kvs s. req_body req = Some (JObj kvs) \<and>
             map_of kvs (units ''stateName'') = Some (JStr s) \<and>
             1 \<le> length s \<and> length s \<le> 255 \<longrightarrow>
            updateState_fn req st =
              (Inl (createError 404 ''State not found''),
               log_call (FindUnique (parseInt (param_to_string (params_id req)))) st)"
  proof (intro allI impI)
    fix kvs s
    assume h: "req_body req = Some (JObj kvs) \<and>
             map_of kvs (units ''stateName'') = Some (JStr s) \<and>
             1 \<le> length s \<and> length s \<le> 255"
    then have "updateSchema (req_body req) = Inr [(''stateName'', Some s)]"
      using updateSchema_valid [of "req_body req" kvs s] by blast
    with assms show "updateState_fn req st =
              (Inl (createError 404 ''State not found''),
               log_call (FindUnique (parseInt (param_to_string (params_id req)))) st)"
      by (simp add: updateState_fn_cases)
  qed
  have b: "\<not> (\<exists>kvs s. req_body req = Some (JObj kvs) \<and>
                map_of kvs (units ''stateName'') = Some (JStr s) \<and>
                1 \<le> length s \<and> length s \<le> 255) \<longrightarrow>
            (\<exists>issues. issues \<noteq> [] \<and> updateState_fn req st = (Inl (zodError issues), st))"
  proof
    assume "\<not> (\<exists>kvs s. req_body req = Some (JObj kvs) \<and>
                map_of kvs (units ''stateName'') = Some (JStr s) \<and>
                1 \<le> length s \<and> length s \<le> 255)"
    then obtain issues where i: "issues \<noteq> []" "updateSchema (req_body req) = Inl (zodError issues)"
      using updateSchema_invalid [of "req_body req"] by blast
    with assms have "updateState_fn req st = (Inl (zodError issues), st)"
      by (simp add: updateState_fn_cases)
    with i(1) show "\<exists>issues. issues \<noteq> [] \<and> updateState_fn req st = (Inl (zodError issues), st)"
      by blast
  qed
  from a b show ?thesis by (intro conjI) assumption+
qed

theorem C1_update_missing_record_witness:
  "parseInt (param_to_string (params_id
      (body_request ''999999'' (JObj [(units ''stateName'', JStr (units ''Bihar''))])))) = Fin 999999 \<and>
   find (\<lambda>r. state_id r = 999999) (rows example_store) = None \<and>
   fst (findUnique (Fin 999999) example_store) = Inr None \<and>
   updateState_fn (body_request ''999999'' (JObj [(units ''stateName'', JStr (units ''Bihar''))]))
     example_store =
     (Inl (createError 404 ''State not found''), log_call (FindUnique (Fin 999999)) example_store)"
proof -
  let ?req = "body_request ''999999'' (JObj [(units ''stateName'', JStr (units ''Bihar''))])"
  have p: "parseInt (param_to_string (params_id ?req)) = Fin 999999"
    by (simp add: example_defs parse_defs)
  have f: "find (\<lambda>r. state_id r = 999999) (rows example_store) = None"
    by (simp add: example_defs)
  have u: "fst (findUnique (Fin 999999) example_store) = Inr None"
    by (simp add: example_defs store_defs)
  have n: "\<not> num_falsy (parseInt (param_to_string (params_id ?req)))"
    by (simp add: p num_falsy_def)
  have u': "fst (findUnique (parseInt (param_to_string (params_id ?req))) example_store) = Inr None"
    by (simp add: p u)
  have b: "req_body ?req = Some (JObj [(units ''stateName'', JStr (units ''Bihar''))]) \<and>
           map_of [(units ''stateName'', JStr (units ''Bihar''))] (units ''stateName'') =
             Some (JStr (units ''Bihar'')) \<and>
           1 \<le> length (units ''Bihar'') \<and> length (units ''Bihar'') \<le> 255"
    by (simp add: example_defs units_def)
  have "updateState_fn ?req example_store =
     (Inl (createError 404 ''State not found''),
      log_call (FindUnique (parseInt (param_to_string (params_id ?req)))) example_store)"
    using C1_update_missing_record [OF n u', THEN conjunct1, THEN spec, THEN spec, THEN mp, OF b] .
  with p f u show ?thesis by simp
qed

text \<open>
  C1 as stated fails: the update of the nonexistent id 999999 with the empty object as
  body throws the validation error of the schema, not the not-found error.
\<close>

theorem C1_counterexample:
  "parseInt (param_to_string (params_id (body_request ''999999'' (JObj [])))) = Fin 999999 \<and>
   find (\<lambda>r. state_id r = 999999) (rows example_store) = None \<and>
   updateState_fn (body_request ''999999'' (JObj [])) example_store =
     (Inl (zodError [\<lparr>issue_code = Custom, issue_path = [],
                      issue_message = Some ''At least one field is required''\<rparr>]), example_store) \<and>
   fst (updateState_fn (body_request ''999999'' (JObj [])) example_store)
     \<noteq> Inl (createError 404 ''State not found'')"
  by (simp add: example_defs parse_defs updateState_fn_def schema_defs error_defs)

section \<open>Get, delete and create\<close>

text \<open>
  C6 at a failing input. The get of id 999, which no record has: the handler function
  throws the 404 error \<^verbatim>\<open>State not found\<close>, and the exported operation answers 500 with
  \<^verbatim>\<open>Internal Server Error\<close>, since the catch callback of \<^verbatim>\<open>asyncHandler\<close> knows the status
  400 only.
\<close>

theorem C6_get_missing_record:
  "parseInt (param_to_string (params_id (id_request ''999''))) = Fin 999 \<and>
   find (\<lambda>r. state_id r = 999) (rows example_store) = None \<and>
   getState_fn (id_request ''999'') example_store =
     (Inl (createError 404 ''State not found''), log_call (FindUnique (Fin 999)) example_store) \<and>
   getState (id_request ''999'') example_store =
     (\<lparr>status = 500, body = BErrors (ErrMessage ''Internal Server Error'')\<rparr>,
      log_call (FindUnique (Fin 999)) example_store)"
  by (simp add: example_defs parse_defs getState_def getState_fn_def store_defs error_defs)

text \<open>
  C4 at a failing input. Deleting id 2 twice: the first call looks the record up, deletes
  it and answers 200 with the confirmation; the second call looks it up, issues no delete,
  and answers 500 with \<^verbatim>\<open>Internal Server Error\<close> where not-found is expected.
\<close>

theorem C4_delete_twice:
  "deleteState (id_request ''2'') example_store =
     (\<lparr>status = 200, body = BMessage ''State deleted successfully''\<rparr>,
      example_store\<lparr>rows := [\<lparr>state_id = 1, stateName = units ''Goa'', createdAt = 5, updatedAt = 5\<rparr>],
                    calls := [FindUnique (Fin 2), Delete (Fin 2)]\<rparr>) \<and>
   deleteState (id_request ''2'') (snd (deleteState (id_request ''2'') example_store)) =
     (\<lparr>status = 500, body = BErrors (ErrMessage ''Internal Server Error'')\<rparr>,
      example_store\<lparr>rows := [\<lparr>state_id = 1, stateName = units ''Goa'', createdAt = 5, updatedAt = 5\<rparr>],
                    calls := [FindUnique (Fin 2), Delete (Fin 2), FindUnique (Fin 2)]\<rparr>)"
  by (simp add: example_defs parse_defs deleteState_def deleteState_fn_def store_defs error_defs
      Let_def)

text \<open>
  C7 at a failing input. Creating a state with the empty string as stateName: the schema
  throws a \<^verbatim>\<open>ZodError\<close> and nothing is inserted, but the error has no status, so the
  response is 500 with \<^verbatim>\<open>Internal Server Error\<close> and no per-field validation error.
\<close>

theorem C7_create_empty_name:
  "createState_fn (create_request (JObj [(units ''stateName'', JStr [])])) example_store =
     (Inl (zodError [\<lparr>issue_code = TooSmall, issue_path = [''stateName''],
                      issue_message = Some ''State name is required''\<rparr>]), example_store) \<and>
   createState (create_request (JObj [(units ''stateName'', JStr [])])) example_store =
     (\<lparr>status = 500, body = BErrors (ErrMessage ''Internal Server Error'')\<rparr>, example_store)"
  by (simp add: example_defs createState_def createState_fn_def schema_defs error_defs units_def)

section \<open>Identifier parsing\<close>

text \<open>
  C9 at a failing input. The identifier \<^verbatim>\<open>-5\<close> parses to the number -5, which is neither
  \<^verbatim>\<open>NaN\<close> nor 0: it passes the invalid-id check and goes to the store lookup, which
  finds no record. The handler function then throws the 404 error \<^verbatim>\<open>State not found\<close>,
  but the exported get, delete and update answer 500 with \<^verbatim>\<open>Internal Server Error\<close>,
  where the claim says not-found. The other part of the claim holds: \<^verbatim>\<open>2abc\<close> is taken
  as the id 2, and the get answers with record 2.
\<close>

theorem C9_negative_identifier:
  "parseInt (param_to_string (params_id (id_request ''-5''))) = Fin (- 5) \<and>
   \<not> num_falsy (Fin (- 5)) \<and>
   getState_fn (id_request ''-5'') example_store =
     (Inl (createError 404 ''State not found''), log_call (FindUnique (Fin (- 5))) example_store) \<and>
   getState (id_request ''-5'') example_store =
     (\<lparr>status = 500, body = BErrors (ErrMessage ''Internal Server Error'')\<rparr>,
      log_call (FindUnique (Fin (- 5))) example_store) \<and>
   deleteState (id_request ''-5'') example_store =
     (\<lparr>status = 500, body = BErrors (ErrMessage ''Internal Server Error'')\<rparr>,
      log_call (FindUnique (Fin (- 5))) example_store) \<and>
   updateState (body_request ''-5'' (JObj [(units ''stateName'', JStr (units ''Bihar''))]))
       example_store =
     (\<lparr>status = 500, body = BErrors (ErrMessage ''Internal Server Error'')\<rparr>,
      log_call (FindUnique (Fin (- 5))) example_store) \<and>
   getState (id_request ''2abc'') example_store =
     (\<lparr>status = 200,
       body = BState \<lparr>state_id = 2, stateName = units ''Assam'', createdAt = 6, updatedAt = 6\<rparr>\<rparr>,
      log_call (FindUnique (Fin 2)) example_store)"
proof -
  have p: "parseInt (param_to_string (params_id (id_request ''-5''))) = Fin (- 5)"
    by (simp add: example_defs parse_defs)
  have p': "parseInt (param_to_string (params_id
              (body_request ''-5'' (JObj [(units ''stateName'', JStr (units ''Bihar''))])))) = Fin (- 5)"
    by (simp add: example_defs parse_defs)
  have q: "parseInt (param_to_string (params_id (id_request ''2abc''))) = Fin 2"
    by (simp add: example_defs parse_defs)
  have n: "\<not> num_falsy (Fin (- 5))" "\<not> num_falsy (Fin 2)" by (simp_all add: num_falsy_def)
  have u: "fst (findUnique (Fin (- 5)) example_store) = Inr None"
    by (simp add: example_defs store_defs)
  have v: "fst (findUnique (Fin 2) example_store) =
      Inr (Some \<lparr>state_id = 2, stateName = units ''Assam'', createdAt = 6, updatedAt = 6\<rparr>)"
    by (simp add: example_defs store_defs)
  have s: "updateSchema (req_body (body_request ''-5''
              (JObj [(units ''stateName'', JStr (units ''Bihar''))]))) =
            Inr [(''stateName'', Some (units ''Bihar''))]"
    by (simp add: example_defs schema_defs units_def)
  have g: "getState_fn (id_request ''-5'') example_store =
     (Inl (createError 404 ''State not found''), log_call (FindUnique (Fin (- 5))) example_store)"
    using n u by (simp add: getState_fn_cases p)
  have g': "getState (id_request ''-5'') example_store =
     (\<lparr>status = 500, body = BErrors (ErrMessage ''Internal Server Error'')\<rparr>,
      log_call (FindUnique (Fin (- 5))) example_store)"
    using g by (simp add: getState_def asyncHandler_def catch_error_not_found)
  have d: "deleteState (id_request ''-5'') example_store =
     (\<lparr>status = 500, body = BErrors (ErrMessage ''Internal Server Error'')\<rparr>,
      log_call (FindUnique (Fin (- 5))) example_store)"
    using n u by (simp add: deleteState_def asyncHandler_def deleteState_fn_cases p
        catch_error_not_found)
  have w: "updateState (body_request ''-5'' (JObj [(units ''stateName'', JStr (units ''Bihar''))]))
       example_store =
     (\<lparr>status = 500, body = BErrors (ErrMessage ''Internal Server Error'')\<rparr>,
      log_call (FindUnique (Fin (- 5))) example_store)"
    using n u s by (simp add: updateState_def asyncHandler_def updateState_fn_cases p'
        catch_error_not_found)
  have h: "getState (id_request ''2abc'') example_store =
     (\<lparr>status = 200,
       body = BState \<lparr>state_id = 2, stateName = units ''Assam'', createdAt = 6, updatedAt = 6\<rparr>\<rparr>,
      log_call (FindUnique (Fin 2)) example_store)"
    using n v by (simp add: getState_def asyncHandler_def getState_fn_cases q res_json_def)
  from p n(1) g g' d w h show ?thesis by (intro conjI) assumption+
qed

section \<open>The stores the operations leave\<close>

lemma snd_findMany:
  "snd (findMany wh skip tk key ord st) = log_call (FindMany wh skip tk key ord) st"
  by (simp add: findMany_def Let_def split: option.splits)

lemma snd_count: "snd (count wh st) = log_call (Count wh) st"
  by (simp add: count_def Let_def split: option.splits)

lemma snd_getStates_fn:
  "snd (getStates_fn req st) =
     log_call (Count (where_of req))
       (log_call (FindMany (where_of req) (skip_of req) (effective_limit req)
                   (qval_to_string (Some (mappedSortBy req)))
                   (with_default (query_sortOrder req) ''asc'')) st)"
proof -
  obtain x where fm: "findMany (where_of req) (skip_of req) (effective_limit req)
           (qval_to_string (Some (mappedSortBy req)))
           (with_default (query_sortOrder req) ''asc'') st =
         (x, log_call (FindMany (where_of req) (skip_of req) (effective_limit req)
                   (qval_to_string (Some (mappedSortBy req)))
                   (with_default (query_sortOrder req) ''asc'')) st)"
    using snd_findMany by (metis prod.collapse)
  obtain y where ct: "count (where_of req)
       (log_call (FindMany (where_of req) (skip_of req) (effective_limit req)
                   (qval_to_string (Some (mappedSortBy req)))
                   (with_default (query_sortOrder req) ''asc'')) st) =
         (y, log_call (Count (where_of req))
       (log_call (FindMany (where_of req) (skip_of req) (effective_limit req)
                   (qval_to_string (Some (mappedSortBy req)))
                   (with_default (query_sortOrder req) ''asc'')) st))"
    using snd_count by (metis prod.collapse)
  show ?thesis
    by (simp add: getStates_fn_def Let_def fm ct split: sum.splits)
qed

lemma getStates_frame:
  "rows (snd (getStates req st)) = rows st \<and> now (snd (getStates req st)) = now st"
  by (simp add: getStates_def snd_asyncHandler snd_getStates_fn log_call_def)

lemma getState_frame:
  "rows (snd (getState req st)) = rows st \<and> now (snd (getState req st)) = now st"
  by (simp add: getState_def snd_asyncHandler getState_fn_cases Let_def log_call_def
      split: sum.splits option.splits)

lemma createState_frame:
  "snd (createState req st) = st \<or>
   (\<exists>name. rows (snd (createState req st)) =
             rows st @ [\<lparr>state_id = next_id st, stateName = name,
                          createdAt = now st, updatedAt = now st\<rparr>] \<and>
           now (snd (createState req st)) = now st + 1)"
  by (cases "createSchema (req_body req)") (simp_all add: createState_outcomes)

lemma deleteState_frame:
  "set (rows (snd (deleteState req st))) \<subseteq> set (rows st) \<and>
   now (snd (deleteState req st)) = now st"
  by (auto simp add: deleteState_def snd_asyncHandler deleteState_fn_cases Let_def log_call_def
      split: sum.splits option.splits)

lemma updateState_frame:
  "(rows (snd (updateState req st)) = rows st \<and> now (snd (updateState req st)) = now st) \<or>
   (\<exists>(r::state_row) r'. rows (snd (updateState req st)) =
             map (\<lambda>x. if state_id x = state_id r then r' else x) (rows st) \<and>
           updatedAt r' = now st \<and> now (snd (updateState req st)) = now st + 1)"
proof -
  define n where "n = parseInt (param_to_string (params_id req))"
  show ?thesis
  proof (cases "num_falsy n")
    case True
    then show ?thesis
      by (simp add: updateState_def snd_asyncHandler updateState_fn_cases n_def)
  next
    case nf: False
    show ?thesis
    proof (cases "updateSchema (req_body req)")
      case (Inl e)
      with nf show ?thesis
        by (simp add: updateState_def snd_asyncHandler updateState_fn_cases n_def)
    next
      case data: (Inr data)
      show ?thesis
      proof (cases "fst (findUnique n st)")
        case (Inl e)
        with nf data show ?thesis
          by (simp add: updateState_def snd_asyncHandler updateState_fn_cases n_def [symmetric]
              log_call_def)
      next
        case (Inr y)
        show ?thesis
        proof (cases y)
          case None
          with Inr nf data show ?thesis
            by (simp add: updateState_def snd_asyncHandler updateState_fn_cases n_def [symmetric]
                log_call_def)
        next
          case (Some r)
          with Inr nf data have
            "rows (snd (updateState req st)) =
               map (\<lambda>x. if state_id x = state_id r
                    then r\<lparr>stateName := (case map_of (remove_undefined data) ''stateName'' of
                                           Some (Some v) \<Rightarrow> v | _ \<Rightarrow> stateName r),
                           updatedAt := now st\<rparr>
                    else x) (rows st) \<and>
             now (snd (updateState req st)) = now st + 1"
            by (simp add: updateState_def snd_asyncHandler updateState_fn_cases
                n_def [symmetric])
          then have e: "\<exists>r'. rows (snd (updateState req st)) =
               map (\<lambda>x. if state_id x = state_id r then r' else x) (rows st) \<and>
             updatedAt r' = now st \<and> now (snd (updateState req st)) = now st + 1"
            by (intro exI [of _ "r\<lparr>stateName := (case map_of (remove_undefined data) ''stateName'' of
                                           Some (Some v) \<Rightarrow> v | _ \<Rightarrow> stateName r),
                           updatedAt := now st\<rparr>"]) simp
          show ?thesis by (rule disjI2, rule exI [of _ r], rule e)
        qed
      qed
    qed
  qed
qed

text \<open>In every store the operations reach, each record was last written before now.\<close>

lemma reachable_stamps: "reachable st \<Longrightarrow> \<forall>r\<in>set (rows st). updatedAt r < now st"
proof (induction rule: reachable.induct)
  case (initial t ti tc tx ct)
  show ?case by simp
next
  case (listed st req)
  then show ?case by (simp add: getStates_frame)
next
  case (got st req)
  then show ?case by (simp add: getState_frame)
next
  case (created st req)
  from createState_frame [of req st] show ?case
  proof
    assume "snd (createState req st) = st"
    with created.IH show ?thesis by simp
  next
    assume "\<exists>name. rows (snd (createState req st)) =
             rows st @ [\<lparr>state_id = next_id st, stateName = name,
                          createdAt = now st, updatedAt = now st\<rparr>] \<and>
           now (snd (createState req st)) = now st + 1"
    with created.IH show ?thesis by force
  qed
next
  case (updated st req)
  from updateState_frame [of req st] show ?case
  proof
    assume "rows (snd (updateState req st)) = rows st \<and> now (snd (updateState req st)) = now st"
    with updated.IH show ?thesis by simp
  next
    assume "\<exists>(r::state_row) r'. rows (snd (updateState req st)) =
             map (\<lambda>x. if state_id x = state_id r then r' else x) (rows st) \<and>
           updatedAt r' = now st \<and> now (snd (updateState req st)) = now st + 1"
    with updated.IH show ?thesis by force
  qed
next
  case (deleted st req)
  with deleteState_frame [of req st] show ?case by force
next
  case (later st t)
  then show ?case by force
qed

section \<open>Partial update\<close>

text \<open>
  C5. For every store the operations reach and every update request on an existing
  record whose body gives a stateName of 1 to 255 characters: the data sent to the store
  is exactly that field (no key with an undefined value is ever in the data after the
  removal loop); the response is 200 with the updated record, in which the id and
  createdAt are those of the record, stateName is the given one, and updatedAt is the
  time of the update, which differs from the old updatedAt; the other rows are not
  touched.
\<close>

theorem C5_partial_update:
  assumes "reachable st"
    and "\<not> num_falsy (parseInt (param_to_string (params_id req)))"
    and "fst (findUnique (parseInt (param_to_string (params_id req))) st) = Inr (Some r)"
    and "req_body req = Some (JObj kvs)"
    and "map_of kvs (units ''stateName'') = Some (JStr v)"
    and "1 \<le> length v" and "length v \<le> 255"
  shows "\<exists>r'. updateState req st =
           (\<lparr>status = 200, body = BState r'\<rparr>,
            st\<lparr>rows := map (\<lambda>x. if state_id x = state_id r then r' else x) (rows st),
               now := now st + 1,
               calls := calls st @
                 [FindUnique (parseInt (param_to_string (params_id req))),
                  Update (parseInt (param_to_string (params_id req)))
                    [(''stateName'', Some v)]]\<rparr>) \<and>
         r' = r\<lparr>stateName := v, updatedAt := now st\<rparr> \<and>
         state_id r' = state_id r \<and> stateName r' = v \<and> createdAt r' = createdAt r \<and>
         updatedAt r' \<noteq> updatedAt r \<and>
         (\<forall>d. \<forall>(k, x) \<in> set (remove_undefined d). x \<noteq> None)"
proof -
  have s: "updateSchema (req_body req) = Inr [(''stateName'', Some v)]"
    using updateSchema_valid [OF assms(4,5,6,7)] .
  have ru: "remove_undefined [(''stateName'', Some v)] = [(''stateName'', Some v)]"
    by (simp add: remove_undefined_def)
  obtain k where "find (\<lambda>x. state_id x = k) (rows st) = Some r"
    using assms(3) findUnique_Inr [of _ st "Some r"] by force
  then have "r \<in> set (rows st)"
    by (auto simp add: find_Some_iff)
  with reachable_stamps [OF assms(1)] have lt: "updatedAt r < now st" by blast
  have "updateState req st =
           (\<lparr>status = 200, body = BState (r\<lparr>stateName := v, updatedAt := now st\<rparr>)\<rparr>,
            st\<lparr>rows := map (\<lambda>x. if state_id x = state_id r
                                then r\<lparr>stateName := v, updatedAt := now st\<rparr> else x) (rows st),
               now := now st + 1,
               calls := calls st @
                 [FindUnique (parseInt (param_to_string (params_id req))),
                  Update (parseInt (param_to_string (params_id req)))
                    [(''stateName'', Some v)]]\<rparr>)"
    using assms(2,3) s ru
    by (simp add: updateState_def asyncHandler_def updateState_fn_cases res_json_def Let_def)
  then show ?thesis
    using remove_undefined_defined lt by auto
qed

theorem C5_partial_update_witness:
  "reachable created_store \<and>
   rows created_store =
     [\<lparr>state_id = 1, stateName = units ''Goa'', createdAt = 5, updatedAt = 5\<rparr>] \<and>
   fst (updateState (body_request ''1'' (JObj [(units ''stateName'', JStr (units ''Bihar''))]))
         created_store) =
     \<lparr>status = 200,
      body = BState \<lparr>state_id = 1, stateName = units ''Bihar'', createdAt = 5, updatedAt = 6\<rparr>\<rparr> \<and>
   rows (snd (updateState (body_request ''1'' (JObj [(units ''stateName'', JStr (units ''Bihar''))]))
         created_store)) =
     [\<lparr>state_id = 1, stateName = units ''Bihar'', createdAt = 5, updatedAt = 6\<rparr>] \<and>
   calls (snd (updateState (body_request ''1'' (JObj [(units ''stateName'', JStr (units ''Bihar''))]))
         created_store)) =
     [Create (units ''Goa''), FindUnique (Fin 1),
      Update (Fin 1) [(''stateName'', Some (units ''Bihar''))]]"
proof -
  let ?req = "body_request ''1'' (JObj [(units ''stateName'', JStr (units ''Bihar''))])"
  let ?r = "\<lparr>state_id = 1, stateName = units ''Goa'', createdAt = 5, updatedAt = 5\<rparr>"
  have e: "reachable empty_store"
    unfolding empty_store_def by (rule reachable.initial)
  have c: "reachable created_store"
    unfolding created_store_def using e by (rule reachable.created)
  have cs: "created_store =
      \<lparr>rows = [?r], next_id = 2, now = 6, calls = [Create (units ''Goa'')],
       takes_id = int32, takes_count = int32, text_contains = str_contains,
       client_text = (\<lambda>c. ''Invalid invocation'')\<rparr>"
    by (simp add: created_store_def createState_outcomes create_request_def empty_request_def
        empty_store_def schema_defs units_def)
  have p: "parseInt (param_to_string (params_id ?req)) = Fin 1"
    by (simp add: example_defs parse_defs)
  have n: "\<not> num_falsy (parseInt (param_to_string (params_id ?req)))"
    by (simp add: p num_falsy_def)
  have f: "fst (findUnique (parseInt (param_to_string (params_id ?req))) created_store) =
             Inr (Some ?r)"
    by (simp add: p cs store_defs)
  have b: "req_body ?req = Some (JObj [(units ''stateName'', JStr (units ''Bihar''))])"
    by (simp add: example_defs)
  have m: "map_of [(units ''stateName'', JStr (units ''Bihar''))] (units ''stateName'') =
             Some (JStr (units ''Bihar''))"
    by simp
  have l: "1 \<le> length (units ''Bihar'')" "length (units ''Bihar'') \<le> 255"
    by (simp_all add: units_def)
  from C5_partial_update [OF c n f b m l] obtain r' where
    u: "updateState ?req created_store =
           (\<lparr>status = 200, body = BState r'\<rparr>,
            created_store\<lparr>rows := map (\<lambda>x. if state_id x = state_id ?r then r' else x)
                                  (rows created_store),
               now := now created_store + 1,
               calls := calls created_store @
                 [FindUnique (parseInt (param_to_string (params_id ?req))),
                  Update (parseInt (param_to_string (params_id ?req)))
                    [(''stateName'', Some (units ''Bihar''))]]\<rparr>)"
    and r': "r' = ?r\<lparr>stateName := units ''Bihar'', updatedAt := now created_store\<rparr>"
    by blast
  have rw: "rows created_store = [?r]" "now created_store = 6"
    "calls created_store = [Create (units ''Goa'')]"
    by (simp_all add: cs)
  from u r' p rw have "rows created_store = [?r] \<and>
   fst (updateState ?req created_store) =
     \<lparr>status = 200,
      body = BState \<lparr>state_id = 1, stateName = units ''Bihar'', createdAt = 5, updatedAt = 6\<rparr>\<rparr> \<and>
   rows (snd (updateState ?req created_store)) =
     [\<lparr>state_id = 1, stateName = units ''Bihar'', createdAt = 5, updatedAt = 6\<rparr>] \<and>
   calls (snd (updateState ?req created_store)) =
     [Create (units ''Goa''), FindUnique (Fin 1),
      Update (Fin 1) [(''stateName'', Some (units ''Bihar''))]]"
    by simp
  with c show ?thesis by (intro conjI) simp_all
qed

section \<open>Pagination\<close>

lemma one_less_huge: "1 < huge" "10 < huge"
proof -
  have "(2::real) ^ Suc p_bits \<le> huge" by (rule safe_le_huge)
  moreover have "(16::real) \<le> 2 ^ Suc p_bits"
  proof -
    have "(2::real) ^ 4 \<le> 2 ^ Suc p_bits"
      by (rule power_increasing) (simp_all add: p_bits_def)
    then show ?thesis by simp
  qed
  ultimately show "1 < huge" "10 < huge" by linarith+
qed

lemma ulp_le_self:
  assumes "1 \<le> x"
  shows "ulp x \<le> x"
proof (cases "binade (e_min + e_max) \<bar>x\<bar> = 0")
  case True
  have "(1::real) \<le> 2 ^ (e_min + p_bits)" by simp
  then have "1 / 2 ^ (e_min + p_bits) \<le> (1::real)" by (simp add: divide_le_eq)
  with assms have "1 / 2 ^ (e_min + p_bits) \<le> x" by linarith
  with True show ?thesis by (simp add: ulp_def)
next
  case False
  then have "2 ^ binade (e_min + e_max) \<bar>x\<bar> \<le> \<bar>x\<bar> * 2 ^ e_min"
    using binade_lower [of "e_min + e_max" "\<bar>x\<bar>"] by simp
  with assms have b: "2 ^ binade (e_min + e_max) \<bar>x\<bar> \<le> x * 2 ^ e_min" by simp
  have "(1::real) \<le> 2 ^ p_bits" by simp
  with assms have "x * 2 ^ e_min * 1 \<le> x * 2 ^ e_min * 2 ^ p_bits"
    by (intro mult_left_mono) simp_all
  with b have "2 ^ binade (e_min + e_max) \<bar>x\<bar> \<le> x * 2 ^ (e_min + p_bits)"
    by (simp add: power_add mult.assoc)
  then show ?thesis
    by (simp add: ulp_def divide_le_eq)
qed

lemma rnd_pos:
  assumes "1 \<le> x"
  shows "rnd x = PInf \<or> (\<exists>y. rnd x = Fin y \<and> 0 < y)"
proof -
  have u: "0 < ulp x" by (rule ulp_pos)
  from ulp_le_self [OF assms] u have "1 \<le> x / ulp x" by (simp add: le_divide_eq)
  then have "1 \<le> \<lfloor>x / ulp x\<rfloor>" by linarith
  with round_even_ge_floor [of "x / ulp x"] have "1 \<le> round_even (x / ulp x)" by linarith
  then have "0 < of_int (round_even (x / ulp x)) * ulp x"
    using u by (intro mult_pos_pos) simp_all
  moreover have "0 < huge" by (rule huge_pos)
  ultimately show ?thesis
    by (auto simp add: rnd_def Let_def)
qed

text \<open>The shape of a parsed number, and of a clamped page or limit.\<close>

lemma rnd_of_int_cases:
  "rnd (of_int k) = PInf \<or> rnd (of_int k) = NInf \<or>
   (\<exists>x. rnd (of_int k) = Fin x \<and> x \<in> \<int> \<and> \<bar>x\<bar> < huge)"
proof (cases "rnd (of_int k)")
  case NaN
  then show ?thesis by (simp add: rnd_def Let_def split: if_splits)
next
  case PInf
  then show ?thesis by simp
next
  case NInf
  then show ?thesis by simp
next
  case (Fin y)
  have "real_of_int k \<in> \<int>" by simp
  with Fin have "y \<in> \<int>" by (rule rnd_integer [rotated])
  moreover from Fin have "\<bar>y\<bar> < huge" by (rule rnd_Fin_bound)
  ultimately show ?thesis using Fin by simp
qed

lemma nan_or_rnd:
  "\<exists>j. (if b then NaN else rnd (of_int k)) = NaN \<or>
       (if b then NaN else rnd (of_int k)) = rnd (of_int j)"
  by auto

lemma parseInt_cases:
  "parseInt s = NaN \<or> parseInt s = PInf \<or> parseInt s = NInf \<or>
   (\<exists>x. parseInt s = Fin x \<and> x \<in> \<int> \<and> \<bar>x\<bar> < huge)"
proof -
  have "\<exists>k. parseInt s = NaN \<or> parseInt s = rnd (of_int k)"
    unfolding parseInt_def Let_def by (rule nan_or_rnd)
  then obtain k where "parseInt s = NaN \<or> parseInt s = rnd (of_int k)" by blast
  with rnd_of_int_cases [of k] show ?thesis by auto
qed

lemma clamp_cases:
  assumes "n = NaN \<or> n = PInf \<or> n = NInf \<or> (\<exists>x. n = Fin x \<and> x \<in> \<int> \<and> \<bar>x\<bar> < huge)"
    and "d = 1 \<or> d = 10"
  shows "js_max (Fin 1) (num_or n (Fin d)) = PInf \<or>
         (\<exists>y. js_max (Fin 1) (num_or n (Fin d)) = Fin y \<and> 1 \<le> y \<and> y \<in> \<int> \<and> y < huge)"
proof -
  have d: "1 \<le> d" "d \<in> \<int>" "d < huge" "max 1 d = d"
    using assms(2) one_less_huge by auto
  from assms(1) consider "n = NaN" | "n = PInf" | "n = NInf"
    | x where "n = Fin x" "x \<in> \<int>" "\<bar>x\<bar> < huge" by blast
  then show ?thesis
  proof cases
    case 1
    with d show ?thesis by (simp add: num_or_def num_falsy_def)
  next
    case 2
    then show ?thesis by (simp add: num_or_def num_falsy_def)
  next
    case 3
    then show ?thesis using one_less_huge by (simp add: num_or_def num_falsy_def)
  next
    case 4
    show ?thesis
    proof (cases "x = 0")
      case True
      with 4 d show ?thesis by (simp add: num_or_def num_falsy_def)
    next
      case False
      have "max 1 x \<in> \<int>" using 4(2) by (simp add: max_def)
      moreover have "max 1 x < huge"
      proof -
        have "x \<le> \<bar>x\<bar>" by simp
        with 4(3) have "x < huge" by linarith
        with one_less_huge(1) show ?thesis by (simp add: max_def)
      qed
      ultimately show ?thesis using 4(1) False by (simp add: num_or_def num_falsy_def)
    qed
  qed
qed

lemma effective_page_cases:
  "effective_page req = PInf \<or>
   (\<exists>y. effective_page req = Fin y \<and> 1 \<le> y \<and> y \<in> \<int> \<and> y < huge)"
  unfolding effective_page_def
  by (rule clamp_cases [OF parseInt_cases]) simp

lemma effective_limit_cases:
  "effective_limit req = PInf \<or>
   (\<exists>y. effective_limit req = Fin y \<and> 1 \<le> y \<and> y \<in> \<int> \<and> y < huge)"
  unfolding effective_limit_def
  by (rule clamp_cases [OF parseInt_cases]) simp

lemma effective_page_ge1: "js_le (Fin 1) (effective_page req)"
  using effective_page_cases [of req] by auto

lemma effective_limit_ge1: "js_le (Fin 1) (effective_limit req)"
  using effective_limit_cases [of req] by auto

lemma effective_limit_Fin:
  "effective_limit req = Fin l \<Longrightarrow> 1 \<le> l \<and> l \<in> \<int> \<and> l < huge"
  using effective_limit_cases [of req] by auto

text \<open>\<open>page - 1\<close>: zero for page 1 only.\<close>

lemma page_minus_one_cases:
  "js_sub (effective_page req) (Fin 1) = PInf \<or>
   (effective_page req = Fin 1 \<and> js_sub (effective_page req) (Fin 1) = Fin 0) \<or>
   (\<exists>z. js_sub (effective_page req) (Fin 1) = Fin z \<and> 0 < z \<and> z \<in> \<int>)"
proof -
  from effective_page_cases [of req] consider "effective_page req = PInf"
    | y where "effective_page req = Fin y" "1 \<le> y" "y \<in> \<int>" by blast
  then show ?thesis
  proof cases
    case 1
    then show ?thesis by simp
  next
    case 2
    show ?thesis
    proof (cases "y = 1")
      case True
      have "rnd 0 = Fin 0" by (rule rnd_safe) simp_all
      with True 2 show ?thesis by simp
    next
      case False
      from 2(3) obtain k where k: "y = of_int k" by (auto elim: Ints_cases)
      with 2(2) False have "2 \<le> k" by linarith
      then have ge: "1 \<le> y - 1" using k by simp
      have int: "y - 1 \<in> \<int>" using 2(3) by simp
      from rnd_pos [OF ge] show ?thesis
      proof
        assume "rnd (y - 1) = PInf"
        with 2 show ?thesis by simp
      next
        assume "\<exists>z. rnd (y - 1) = Fin z \<and> 0 < z"
        then obtain z where z: "rnd (y - 1) = Fin z" "0 < z" by blast
        from int z(1) have "z \<in> \<int>" by (rule rnd_integer)
        with z 2 show ?thesis by simp
      qed
    qed
  qed
qed

lemma skip_of_cases:
  "skip_of req = PInf \<or>
   (\<exists>s. skip_of req = Fin s \<and> 0 \<le> s \<and> s \<in> \<int>) \<or>
   (effective_page req = Fin 1 \<and> effective_limit req = PInf \<and> skip_of req = NaN)"
proof -
  from effective_limit_cases [of req] consider (inf) "effective_limit req = PInf"
    | (fin) l where "effective_limit req = Fin l" "1 \<le> l" "l \<in> \<int>" by blast
  then show ?thesis
  proof cases
    case inf
    from page_minus_one_cases [of req] show ?thesis
      using inf by (auto simp add: skip_of_def signed_inf_def)
  next
    case fin
    from page_minus_one_cases [of req] consider "js_sub (effective_page req) (Fin 1) = PInf"
      | z where "js_sub (effective_page req) (Fin 1) = Fin z" "0 \<le> z" "z \<in> \<int>"
      by force
    then show ?thesis
    proof cases
      case 1
      with fin show ?thesis by (simp add: skip_of_def signed_inf_def)
    next
      case 2
      have nn: "0 \<le> z * l" using 2(2) fin(2) by simp
      have int: "z * l \<in> \<int>" using 2(3) fin(3) by simp
      from rnd_nonneg [OF nn] show ?thesis
      proof
        assume "rnd (z * l) = PInf"
        with 2 fin show ?thesis by (simp add: skip_of_def)
      next
        assume "\<exists>y. rnd (z * l) = Fin y \<and> 0 \<le> y"
        then obtain y where y: "rnd (z * l) = Fin y" "0 \<le> y" by blast
        from int y(1) have "y \<in> \<int>" by (rule rnd_integer)
        with y 2 fin show ?thesis by (simp add: skip_of_def)
      qed
    qed
  qed
qed

lemma negative_clamped:
  assumes "n = Fin x" and "x < 0"
  shows "js_max (Fin 1) (num_or n d) = Fin 1"
  using assms by (simp add: num_or_def num_falsy_def max_def)

lemma getStates_calls:
  "calls (snd (getStates req st)) =
     calls st @ [FindMany (where_of req) (skip_of req) (effective_limit req)
                   (qval_to_string (Some (mappedSortBy req)))
                   (with_default (query_sortOrder req) ''asc''),
                 Count (where_of req)]"
  by (simp add: getStates_def snd_asyncHandler snd_getStates_fn log_call_def)

text \<open>A decimal numeral of 310 digits is beyond the finite numbers.\<close>

lemma takeWhile_replicate: "P x \<Longrightarrow> takeWhile P (replicate n x) = replicate n x"
  by (induction n) simp_all

lemma foldl_zero_digits:
  "foldl (\<lambda>acc c. acc * 10 + the (digit_val 10 c)) a (replicate n 48) = a * 10 ^ n"
  by (induction n arbitrary: a) (simp_all add: digit_val_def)

lemma huge_le_power_of_ten: "huge \<le> 10 ^ 309"
  by (simp add: huge_def e_max_def)

lemma parseInt_long: "parseInt (49 # replicate 309 48) = PInf"
proof -
  have d: "is_digit 10 48" "is_digit 10 49" by (simp_all add: is_digit_def digit_val_def)
  have w: "\<not> is_ws 49" by (simp add: is_ws_def)
  have t: "takeWhile (is_digit 10) (49 # replicate 309 48) = 49 # replicate 309 48"
    using d by (simp add: takeWhile_replicate)
  have dv: "the (digit_val 10 49) = 1" by (simp add: digit_val_def)
  have "digits_value 10 (49 # replicate 309 48) = (0 * 10 + the (digit_val 10 49)) * 10 ^ 309"
    unfolding digits_value_def foldl_Cons by (rule foldl_zero_digits)
  then have v: "digits_value 10 (49 # replicate 309 48) = 10 ^ 309"
    by (simp only: dv) simp
  have h: "take 2 (49 # replicate 309 48) \<noteq> units ''0x''"
    "take 2 (49 # replicate 309 48) \<noteq> units ''0X''"
    by (simp_all add: units_def)
  have "parseInt (49 # replicate 309 48) = rnd (of_int (int (10 ^ 309)))"
    using w h t v by (simp add: parseInt_def Let_def del: take_Cons_numeral)
  moreover have "rnd (of_int (int (10 ^ 309))) = PInf"
    using huge_le_power_of_ten by (intro rnd_overflow) simp
  ultimately show ?thesis by simp
qed

text \<open>
  C10, as amended. For every list request the effective page and limit are at least 1,
  and the limit is neither 0 nor \<^verbatim>\<open>NaN\<close>, so the division for totalPages never divides
  by zero; a negative numeric page or limit becomes 1. The skip offset
  \<open>(page - 1) * limit\<close> is at least 0, except when the page is 1 and the limit is
  \<^verbatim>\<open>Infinity\<close>, where it is \<^verbatim>\<open>NaN\<close>. These are the skip and limit of the call the
  operation makes on the store.
\<close>

theorem C10_page_and_limit_clamped:
  "js_le (Fin 1) (effective_page req) \<and> js_le (Fin 1) (effective_limit req) \<and>
   effective_limit req \<noteq> Fin 0 \<and> effective_limit req \<noteq> NaN \<and>
   (js_le (Fin 0) (skip_of req) \<or>
    effective_page req = Fin 1 \<and> effective_limit req = PInf \<and> skip_of req = NaN) \<and>
   (\<forall>x. parseInt (qval_to_string (query_page req)) = Fin x \<and> x < 0 \<longrightarrow>
        effective_page req = Fin 1) \<and>
   (\<forall>x. parseInt (qval_to_string (query_limit req)) = Fin x \<and> x < 0 \<longrightarrow>
        effective_limit req = Fin 1) \<and>
   (\<exists>rest. calls (snd (getStates req st)) =
      calls st @ FindMany (where_of req) (skip_of req) (effective_limit req)
                   (qval_to_string (Some (mappedSortBy req)))
                   (with_default (query_sortOrder req) ''asc'') # rest)"
proof -
  have l: "effective_limit req \<noteq> Fin 0 \<and> effective_limit req \<noteq> NaN"
    using effective_limit_cases [of req] by auto
  have s: "js_le (Fin 0) (skip_of req) \<or>
    effective_page req = Fin 1 \<and> effective_limit req = PInf \<and> skip_of req = NaN"
    using skip_of_cases [of req] by auto
  have p: "\<forall>x. parseInt (qval_to_string (query_page req)) = Fin x \<and> x < 0 \<longrightarrow>
        effective_page req = Fin 1"
    by (auto simp add: effective_page_def negative_clamped)
  have q: "\<forall>x. parseInt (qval_to_string (query_limit req)) = Fin x \<and> x < 0 \<longrightarrow>
        effective_limit req = Fin 1"
    by (auto simp add: effective_limit_def negative_clamped)
  have c: "\<exists>rest. calls (snd (getStates req st)) =
      calls st @ FindMany (where_of req) (skip_of req) (effective_limit req)
                   (qval_to_string (Some (mappedSortBy req)))
                   (with_default (query_sortOrder req) ''asc'') # rest"
    by (simp add: getStates_calls)
  from effective_page_ge1 [of req] effective_limit_ge1 [of req] l s p q c
  show ?thesis by (intro conjI) simp_all
qed

theorem C10_page_and_limit_clamped_witness:
  "parseInt (qval_to_string (query_limit negative_limit_request)) = Fin (- 5) \<and>
   effective_limit negative_limit_request = Fin 1 \<and>
   effective_page negative_limit_request = Fin 3 \<and>
   skip_of negative_limit_request = Fin 2 \<and>
   calls (snd (getStates negative_limit_request example_store)) =
     [FindMany WhereAll (Fin 2) (Fin 1) (units ''stateName'') (QStr (units ''asc'')),
      Count WhereAll]"
proof -
  have p: "parseInt (qval_to_string (query_limit negative_limit_request)) = Fin (- 5)"
    by (simp add: example_defs parse_defs)
  have g: "effective_page negative_limit_request = Fin 3"
    by (simp add: example_defs parse_defs query_defs)
  have n: "parseInt (qval_to_string (query_limit negative_limit_request)) = Fin (- 5) \<and>
           (- 5 :: real) < 0"
    using p by simp
  have l: "effective_limit negative_limit_request = Fin 1"
    using C10_page_and_limit_clamped [of negative_limit_request example_store,
        THEN conjunct2, THEN conjunct2, THEN conjunct2, THEN conjunct2, THEN conjunct2,
        THEN conjunct2, THEN conjunct1, THEN spec, THEN mp, OF n] .
  have s: "skip_of negative_limit_request = Fin 2"
    using g l by (simp add: skip_of_def rnd_small)
  have w: "where_of negative_limit_request = WhereAll"
    "qval_to_string (Some (mappedSortBy negative_limit_request)) = units ''stateName''"
    "with_default (query_sortOrder negative_limit_request) ''asc'' = QStr (units ''asc'')"
    by (simp_all add: example_defs query_defs units_def)
  have c: "calls (snd (getStates negative_limit_request example_store)) =
     [FindMany WhereAll (Fin 2) (Fin 1) (units ''stateName'') (QStr (units ''asc'')),
      Count WhereAll]"
    using s l w by (simp add: getStates_calls example_store_def)
  from p l g s c show ?thesis by (intro conjI) assumption+
qed

text \<open>
  C10 as stated fails: with no page and a limit of 310 digits (1 followed by 309 zeros)
  the limit parses to \<^verbatim>\<open>Infinity\<close>, the page is 1, and the skip offset
  \<open>(1 - 1) * Infinity\<close> is \<^verbatim>\<open>NaN\<close>, which is not at least 0.
\<close>

theorem C10_counterexample:
  "query_page long_limit_request = None \<and>
   query_limit long_limit_request = Some (QStr (49 # replicate 309 48)) \<and>
   effective_page long_limit_request = Fin 1 \<and>
   effective_limit long_limit_request = PInf \<and>
   skip_of long_limit_request = NaN \<and>
   \<not> js_le (Fin 0) (skip_of long_limit_request)"
proof -
  have p: "effective_page long_limit_request = Fin 1"
    by (simp add: example_defs parse_defs query_defs)
  have l: "effective_limit long_limit_request = PInf"
    by (simp add: long_limit_request_def empty_request_def effective_limit_def parseInt_long
        num_or_def num_falsy_def)
  have z: "rnd 0 = Fin 0" by (rule rnd_safe) simp_all
  have s: "skip_of long_limit_request = NaN"
    using p l z by (simp add: skip_of_def)
  have q: "query_page long_limit_request = None"
    "query_limit long_limit_request = Some (QStr (49 # replicate 309 48))"
    by (simp_all add: long_limit_request_def empty_request_def)
  from q p l s show ?thesis by simp
qed

section \<open>The list operation\<close>

lemma findMany_result:
  "(\<exists>m. fst (findMany wh skip tk key ord st) = Inl (plainError m)) \<or>
   (\<exists>m. fst (findMany wh skip tk key ord st) = Inl (prismaValidationError m)) \<or>
   (\<exists>f col desc s t. key \<noteq> [] \<and> where_filter st wh = Some f \<and> column_of key = Some col \<and>
      sort_order_of ord = Some desc \<and> skip_arg st skip = Some s \<and> take_arg st tk = Some t \<and>
      fst (findMany wh skip tk key ord st) =
        Inr (slice_rows s t (order_rows col desc (filter f (rows st)))))"
  by (auto simp add: findMany_def Let_def split: option.splits)

lemma findMany_accepted:
  assumes "key \<noteq> []" and "where_filter st wh = Some f" and "column_of key = Some col"
    and "sort_order_of ord = Some desc" and "skip_arg st skip = Some s"
    and "take_arg st tk = Some t"
  shows "fst (findMany wh skip tk key ord st) =
           Inr (slice_rows s t (order_rows col desc (filter f (rows st))))"
  using assms by (simp add: findMany_def Let_def)

lemma where_filter_log_call: "where_filter (log_call c st) wh = where_filter st wh"
proof (cases wh)
  case WhereAll
  then show ?thesis by simp
next
  case (WhereContains v)
  then show ?thesis by (cases v) (simp_all add: log_call_def)
qed

lemma count_result:
  "where_filter st wh = Some f \<Longrightarrow>
   fst (count wh (log_call c st)) = Inr (Fin (real (length (filter f (rows st)))))"
  by (simp add: count_def Let_def where_filter_log_call) (simp add: log_call_def)

lemma fst_getStates_fn:
  "fst (getStates_fn req st) =
     (case fst (findMany (where_of req) (skip_of req) (effective_limit req)
                  (qval_to_string (Some (mappedSortBy req)))
                  (with_default (query_sortOrder req) ''asc'') st) of
        Inl err \<Rightarrow> Inl err
      | Inr sts \<Rightarrow>
          (case fst (count (where_of req)
                      (log_call (FindMany (where_of req) (skip_of req) (effective_limit req)
                                  (qval_to_string (Some (mappedSortBy req)))
                                  (with_default (query_sortOrder req) ''asc'')) st)) of
             Inl err \<Rightarrow> Inl err
           | Inr tot \<Rightarrow>
               Inr (res_json (BPage \<lparr>states = sts, page = effective_page req,
                                      totalPages = js_ceil (js_div tot (effective_limit req)),
                                      totalStates = tot\<rparr>))))"
proof -
  obtain x where fm: "findMany (where_of req) (skip_of req) (effective_limit req)
           (qval_to_string (Some (mappedSortBy req)))
           (with_default (query_sortOrder req) ''asc'') st =
         (x, log_call (FindMany (where_of req) (skip_of req) (effective_limit req)
                   (qval_to_string (Some (mappedSortBy req)))
                   (with_default (query_sortOrder req) ''asc'')) st)"
    using snd_findMany by (metis prod.collapse)
  obtain y where ct: "count (where_of req)
       (log_call (FindMany (where_of req) (skip_of req) (effective_limit req)
                   (qval_to_string (Some (mappedSortBy req)))
                   (with_default (query_sortOrder req) ''asc'')) st) =
         (y, log_call (Count (where_of req))
       (log_call (FindMany (where_of req) (skip_of req) (effective_limit req)
                   (qval_to_string (Some (mappedSortBy req)))
                   (with_default (query_sortOrder req) ''asc'')) st))"
    using snd_count by (metis prod.collapse)
  show ?thesis
    by (simp add: getStates_fn_def Let_def fm ct split: sum.splits)
qed

text \<open>The response of the list operation when the store takes the query.\<close>

lemma getStates_accepted:
  assumes "qval_to_string (Some (mappedSortBy req)) \<noteq> []"
    and "where_filter st (where_of req) = Some f"
    and "column_of (qval_to_string (Some (mappedSortBy req))) = Some col"
    and "sort_order_of (with_default (query_sortOrder req) ''asc'') = Some desc"
    and "skip_arg st (skip_of req) = Some s"
    and "take_arg st (effective_limit req) = Some t"
  shows "fst (getStates req st) =
           \<lparr>status = 200,
            body = BPage \<lparr>states = slice_rows s t (order_rows col desc (filter f (rows st))),
                          page = effective_page req,
                          totalPages = js_ceil (js_div (Fin (real (length (filter f (rows st)))))
                                                  (effective_limit req)),
                          totalStates = Fin (real (length (filter f (rows st))))\<rparr>\<rparr>"
  using findMany_accepted [OF assms] count_result [OF assms(2)]
  by (simp add: getStates_def fst_asyncHandler fst_getStates_fn res_json_def)

text \<open>It answers 200 only then.\<close>

lemma getStates_200:
  assumes "status (fst (getStates req st)) = 200"
  shows "\<exists>f col desc s t.
           qval_to_string (Some (mappedSortBy req)) \<noteq> [] \<and>
           where_filter st (where_of req) = Some f \<and>
           column_of (qval_to_string (Some (mappedSortBy req))) = Some col \<and>
           sort_order_of (with_default (query_sortOrder req) ''asc'') = Some desc \<and>
           skip_arg st (skip_of req) = Some s \<and>
           take_arg st (effective_limit req) = Some t"
proof -
  from findMany_result [of "where_of req" "skip_of req" "effective_limit req"
      "qval_to_string (Some (mappedSortBy req))" "with_default (query_sortOrder req) ''asc''" st]
  consider m where "fst (findMany (where_of req) (skip_of req) (effective_limit req)
                  (qval_to_string (Some (mappedSortBy req)))
                  (with_default (query_sortOrder req) ''asc'') st) = Inl (plainError m)"
    | m where "fst (findMany (where_of req) (skip_of req) (effective_limit req)
                  (qval_to_string (Some (mappedSortBy req)))
                  (with_default (query_sortOrder req) ''asc'') st) = Inl (prismaValidationError m)"
    | f col desc s t where "qval_to_string (Some (mappedSortBy req)) \<noteq> []"
        "where_filter st (where_of req) = Some f"
        "column_of (qval_to_string (Some (mappedSortBy req))) = Some col"
        "sort_order_of (with_default (query_sortOrder req) ''asc'') = Some desc"
        "skip_arg st (skip_of req) = Some s"
        "take_arg st (effective_limit req) = Some t"
    by blast
  then show ?thesis
  proof cases
    case 1
    then have "status (fst (getStates req st)) = 500"
      by (simp add: getStates_def fst_asyncHandler fst_getStates_fn catch_error_plainError)
    with assms show ?thesis by simp
  next
    case 2
    then have "status (fst (getStates req st)) = 400"
      by (simp add: getStates_def fst_asyncHandler fst_getStates_fn
          catch_error_prismaValidationError)
    with assms show ?thesis by simp
  next
    case 3
    then show ?thesis by blast
  qed
qed

lemma set_order_rows: "set (order_rows col desc rs) = set rs"
  by (cases col) (simp_all add: order_rows_def Let_def)

lemma length_slice_rows: "0 \<le> t \<Longrightarrow> int (length (slice_rows s t rs)) \<le> t"
  by (simp add: slice_rows_def)

lemma set_slice_rows: "set (slice_rows s t rs) \<subseteq> set rs"
proof (cases "0 \<le> t")
  case True
  have "set (take (nat t) (drop (nat s) rs)) \<subseteq> set (drop (nat s) rs)" by (rule set_take_subset)
  also have "\<dots> \<subseteq> set rs" by (rule set_drop_subset)
  finally show ?thesis using True by (simp add: slice_rows_def)
next
  case False
  have "set (take (nat (- t)) (drop (nat s) (rev rs))) \<subseteq> set (drop (nat s) (rev rs))"
    by (rule set_take_subset)
  also have "\<dots> \<subseteq> set (rev rs)" by (rule set_drop_subset)
  finally show ?thesis using False by (simp add: slice_rows_def)
qed

text \<open>The filter of the query, by the search parameter of the request.\<close>

lemma where_filter_search:
  assumes "where_filter st (where_of req) = Some f"
  shows "(query_search req = None \<or> (\<exists>s. query_search req = Some (QStr s))) \<and>
         filter f rs =
           (case query_search req of
              Some (QStr s) \<Rightarrow>
                if s = [] then rs else filter (\<lambda>r. text_contains st s (stateName r)) rs
            | _ \<Rightarrow> rs)"
proof (cases "query_search req")
  case None
  with assms show ?thesis
    by (auto simp add: where_of_def with_default_def units_def)
next
  case (Some v)
  show ?thesis
  proof (cases v)
    case (QStr s)
    with Some assms show ?thesis
      by (cases "s = []") (auto simp add: where_of_def with_default_def)
  next
    case (QArr ss)
    with Some assms show ?thesis by (simp add: where_of_def with_default_def)
  next
    case QObj
    with Some assms show ?thesis by (simp add: where_of_def with_default_def)
  qed
qed

lemma where_filter_accepts:
  assumes "query_search req = None \<or> (\<exists>s. query_search req = Some (QStr s))"
  shows "\<exists>f. where_filter st (where_of req) = Some f"
  using assms by (auto simp add: where_of_def with_default_def Let_def)

subsection \<open>Decimal numerals\<close>

lemma digit10_range: "is_digit 10 c \<longleftrightarrow> 48 \<le> c \<and> c \<le> 57"
  by (auto simp add: is_digit_def digit_val_def Let_def)

lemma digit10_not_ws: "is_digit 10 c \<Longrightarrow> \<not> is_ws c"
  by (auto simp add: digit10_range is_ws_def)

lemma parseInt_digits:
  assumes "ds \<noteq> []" and "\<forall>c\<in>set ds. is_digit 10 c"
  shows "parseInt ds = rnd (real (digits_value 10 ds))"
proof -
  from assms(1) obtain c r where ds: "ds = c # r" by (cases ds) auto
  with assms(2) have c: "is_digit 10 c" by simp
  then have ws: "\<not> is_ws c" by (rule digit10_not_ws)
  from c have sg: "c \<noteq> 45" "c \<noteq> 43" by (auto simp add: digit10_range)
  have d1: "dropWhile is_ws ds = ds" using ds ws by simp
  have hex: "take 2 ds \<noteq> units ''0x''" "take 2 ds \<noteq> units ''0X''"
  proof -
    show "take 2 ds \<noteq> units ''0x''"
    proof (cases r)
      case Nil
      with ds show ?thesis by (simp add: units_def)
    next
      case (Cons c' r')
      with ds assms(2) have "is_digit 10 c'" by simp
      then have "c' \<noteq> 120" by (auto simp add: digit10_range)
      with ds Cons show ?thesis by (simp add: units_def)
    qed
    show "take 2 ds \<noteq> units ''0X''"
    proof (cases r)
      case Nil
      with ds show ?thesis by (simp add: units_def)
    next
      case (Cons c' r')
      with ds assms(2) have "is_digit 10 c'" by simp
      then have "c' \<noteq> 88" by (auto simp add: digit10_range)
      with ds Cons show ?thesis by (simp add: units_def)
    qed
  qed
  have tw: "takeWhile (is_digit 10) ds = ds"
    using assms(2) by (simp add: takeWhile_eq_all_conv)
  have s2: "(case ds of [] \<Rightarrow> ds | c # r \<Rightarrow> if c = 45 \<or> c = 43 then r else ds) = ds"
    using ds sg by simp
  have sign: "(case ds of [] \<Rightarrow> (1::int) | c # x \<Rightarrow> if c = 45 then - 1 else 1) = 1"
    using ds sg by simp
  show ?thesis
    unfolding parseInt_def Let_def d1 s2 sign
    using hex assms(1) by (simp add: tw)
qed

lemma clamp_numeral:
  assumes "ds \<noteq> []" and "\<forall>c\<in>set ds. is_digit 10 c"
    and "1 \<le> digits_value 10 ds" and "digits_value 10 ds < 2 ^ 53"
  shows "js_max (Fin 1) (num_or (parseInt (qval_to_string (Some (QStr ds)))) d) =
           Fin (real (digits_value 10 ds))"
proof -
  have "real (digits_value 10 ds) < 2 ^ 53"
    using assms(4) by (metis of_nat_less_iff of_nat_numeral of_nat_power)
  then have "rnd (real (digits_value 10 ds)) = Fin (real (digits_value 10 ds))"
    by (intro rnd_safe) (simp_all add: p_bits_def)
  with parseInt_digits [OF assms(1,2)] assms(3) show ?thesis
    by (simp add: num_or_def num_falsy_def max_def)
qed

lemma rnd_zero: "rnd 0 = Fin 0"
  by (rule rnd_safe) simp_all

lemma take_arg_Fin: "take_arg st n = Some t \<Longrightarrow> n = Fin (of_int t)"
  by (auto simp add: take_arg_def as_int_def split: option.splits number.splits if_splits)

lemma as_int_integer: "x \<in> \<int> \<Longrightarrow> as_int (Fin x) = Some \<lfloor>x\<rfloor>"
  by (auto simp add: as_int_def elim: Ints_cases)

lemma ceil_quotient:
  assumes "n < 2 ^ 53" and "l \<in> \<int>" and "1 \<le> l" and "l < huge"
  shows "js_ceil (js_div (Fin (real n)) (Fin l)) = Fin (of_int \<lceil>real n / l\<rceil>)"
proof -
  have "real n < 2 ^ 53"
    using assms(1) by (metis of_nat_less_iff of_nat_numeral of_nat_power)
  then have b: "real n < 2 ^ Suc p_bits" by (simp add: p_bits_def)
  have "real n \<in> \<int>" "0 \<le> real n" by simp_all
  from ceil_rnd_quot [OF this(1) assms(2) this(2) b assms(3,4)]
  obtain q where "rnd (real n / l) = Fin q" "\<lceil>q\<rceil> = \<lceil>real n / l\<rceil>" by blast
  with assms(3) show ?thesis by simp
qed

text \<open>
  C2, as amended. For every list request that is answered 200: the search parameter is
  absent or a string, and the records matching it are all rows when it is absent and the
  rows whose stateName the database matches to it otherwise, whatever page and limit
  are (an empty search string stands for no search); totalStates
  is their number; the limit is a number of at least 1, and totalPages is
  \<^verbatim>\<open>Math.ceil(totalStates / limit)\<close>, which is the ceiling of the quotient when fewer than
  \<open>2\<^sup>5\<^sup>3\<close> records match; the returned states are at most limit records, all of them
  matching. A limit or page given as a decimal numeral from 1 to below \<open>2\<^sup>5\<^sup>3\<close> is the
  limit or page used.
\<close>

theorem C2_pagination:
  assumes "status (fst (getStates req st)) = 200"
  shows "\<exists>sts l M.
     M = (case query_search req of
            Some (QStr s) \<Rightarrow>
              if s = [] then rows st
              else filter (\<lambda>r. text_contains st s (stateName r)) (rows st)
          | _ \<Rightarrow> rows st) \<and>
     (query_search req = None \<or> (\<exists>s. query_search req = Some (QStr s))) \<and>
     effective_limit req = Fin l \<and> 1 \<le> l \<and>
     fst (getStates req st) =
       \<lparr>status = 200,
        body = BPage \<lparr>states = sts, page = effective_page req,
                      totalPages = js_ceil (js_div (Fin (real (length M))) (Fin l)),
                      totalStates = Fin (real (length M))\<rparr>\<rparr> \<and>
     (length M < 2 ^ 53 \<longrightarrow>
        js_ceil (js_div (Fin (real (length M))) (Fin l)) =
          Fin (of_int \<lceil>real (length M) / l\<rceil>)) \<and>
     real (length sts) \<le> l \<and> set sts \<subseteq> set M \<and>
     (\<forall>ds. query_limit req = Some (QStr ds) \<and> ds \<noteq> [] \<and> (\<forall>c\<in>set ds. is_digit 10 c) \<and>
           1 \<le> digits_value 10 ds \<and> digits_value 10 ds < 2 ^ 53 \<longrightarrow>
           l = real (digits_value 10 ds)) \<and>
     (\<forall>ds. query_page req = Some (QStr ds) \<and> ds \<noteq> [] \<and> (\<forall>c\<in>set ds. is_digit 10 c) \<and>
           1 \<le> digits_value 10 ds \<and> digits_value 10 ds < 2 ^ 53 \<longrightarrow>
           effective_page req = Fin (real (digits_value 10 ds)))"
proof -
  from getStates_200 [OF assms] obtain f col desc s t where
    a: "qval_to_string (Some (mappedSortBy req)) \<noteq> []"
      "where_filter st (where_of req) = Some f"
      "column_of (qval_to_string (Some (mappedSortBy req))) = Some col"
      "sort_order_of (with_default (query_sortOrder req) ''asc'') = Some desc"
      "skip_arg st (skip_of req) = Some s"
      "take_arg st (effective_limit req) = Some t"
    by blast
  define M where "M = (case query_search req of
            Some (QStr s) \<Rightarrow>
              if s = [] then rows st
              else filter (\<lambda>r. text_contains st s (stateName r)) (rows st)
          | _ \<Rightarrow> rows st)"
  define sts where "sts = slice_rows s t (order_rows col desc (filter f (rows st)))"
  define l :: real where "l = of_int t"
  have lim: "effective_limit req = Fin l"
    using take_arg_Fin [OF a(6)] by (simp add: l_def)
  from effective_limit_Fin [OF lim] have l: "1 \<le> l" "l \<in> \<int>" "l < huge" by simp_all
  from where_filter_search [OF a(2), of "rows st"]
  have sr: "query_search req = None \<or> (\<exists>s. query_search req = Some (QStr s))"
    and fm: "filter f (rows st) = M"
    by (simp_all add: M_def)
  have res: "fst (getStates req st) =
       \<lparr>status = 200,
        body = BPage \<lparr>states = sts, page = effective_page req,
                      totalPages = js_ceil (js_div (Fin (real (length M))) (Fin l)),
                      totalStates = Fin (real (length M))\<rparr>\<rparr>"
    using getStates_accepted [OF a] by (simp add: fm sts_def lim)
  have cl: "length M < 2 ^ 53 \<longrightarrow>
        js_ceil (js_div (Fin (real (length M))) (Fin l)) =
          Fin (of_int \<lceil>real (length M) / l\<rceil>)"
    using ceil_quotient [OF _ l(2,1,3)] by blast
  have t: "0 \<le> t" using l(1) by (simp add: l_def)
  have len: "real (length sts) \<le> l"
  proof -
    from length_slice_rows [OF t] have "int (length sts) \<le> t" by (simp add: sts_def)
    then have "real_of_int (int (length sts)) \<le> real_of_int t" by (simp only: of_int_le_iff)
    then show ?thesis by (simp add: l_def)
  qed
  have sub: "set sts \<subseteq> set M"
  proof -
    have "set sts \<subseteq> set (order_rows col desc (filter f (rows st)))"
      unfolding sts_def by (rule set_slice_rows)
    then show ?thesis by (simp add: set_order_rows fm)
  qed
  have dl: "\<forall>ds. query_limit req = Some (QStr ds) \<and> ds \<noteq> [] \<and> (\<forall>c\<in>set ds. is_digit 10 c) \<and>
           1 \<le> digits_value 10 ds \<and> digits_value 10 ds < 2 ^ 53 \<longrightarrow>
           l = real (digits_value 10 ds)"
  proof (intro allI impI)
    fix ds
    assume h: "query_limit req = Some (QStr ds) \<and> ds \<noteq> [] \<and> (\<forall>c\<in>set ds. is_digit 10 c) \<and>
           1 \<le> digits_value 10 ds \<and> digits_value 10 ds < 2 ^ 53"
    then have "effective_limit req = Fin (real (digits_value 10 ds))"
      using clamp_numeral [of ds "Fin 10"] by (simp add: effective_limit_def)
    with lim show "l = real (digits_value 10 ds)" by simp
  qed
  have dp: "\<forall>ds. query_page req = Some (QStr ds) \<and> ds \<noteq> [] \<and> (\<forall>c\<in>set ds. is_digit 10 c) \<and>
           1 \<le> digits_value 10 ds \<and> digits_value 10 ds < 2 ^ 53 \<longrightarrow>
           effective_page req = Fin (real (digits_value 10 ds))"
  proof (intro allI impI)
    fix ds
    assume h: "query_page req = Some (QStr ds) \<and> ds \<noteq> [] \<and> (\<forall>c\<in>set ds. is_digit 10 c) \<and>
           1 \<le> digits_value 10 ds \<and> digits_value 10 ds < 2 ^ 53"
    then show "effective_page req = Fin (real (digits_value 10 ds))"
      using clamp_numeral [of ds "Fin 1"] by (simp add: effective_page_def)
  qed
  have "M = (case query_search req of
            Some (QStr s) \<Rightarrow>
              if s = [] then rows st
              else filter (\<lambda>r. text_contains st s (stateName r)) (rows st)
          | _ \<Rightarrow> rows st) \<and>
     (query_search req = None \<or> (\<exists>s. query_search req = Some (QStr s))) \<and>
     effective_limit req = Fin l \<and> 1 \<le> l \<and>
     fst (getStates req st) =
       \<lparr>status = 200,
        body = BPage \<lparr>states = sts, page = effective_page req,
                      totalPages = js_ceil (js_div (Fin (real (length M))) (Fin l)),
                      totalStates = Fin (real (length M))\<rparr>\<rparr> \<and>
     (length M < 2 ^ 53 \<longrightarrow>
        js_ceil (js_div (Fin (real (length M))) (Fin l)) =
          Fin (of_int \<lceil>real (length M) / l\<rceil>)) \<and>
     real (length sts) \<le> l \<and> set sts \<subseteq> set M \<and>
     (\<forall>ds. query_limit req = Some (QStr ds) \<and> ds \<noteq> [] \<and> (\<forall>c\<in>set ds. is_digit 10 c) \<and>
           1 \<le> digits_value 10 ds \<and> digits_value 10 ds < 2 ^ 53 \<longrightarrow>
           l = real (digits_value 10 ds)) \<and>
     (\<forall>ds. query_page req = Some (QStr ds) \<and> ds \<noteq> [] \<and> (\<forall>c\<in>set ds. is_digit 10 c) \<and>
           1 \<le> digits_value 10 ds \<and> digits_value 10 ds < 2 ^ 53 \<longrightarrow>
           effective_page req = Fin (real (digits_value 10 ds)))"
    using M_def sr lim l(1) res cl len sub dl dp by (intro conjI) assumption+
  then show ?thesis by (intro exI)
qed

theorem C2_pagination_witness:
  "fst (getStates search_request example_store) =
     \<lparr>status = 200,
      body = BPage
        \<lparr>states = [\<lparr>state_id = 2, stateName = units ''Assam'', createdAt = 6, updatedAt = 6\<rparr>],
         page = Fin 1, totalPages = Fin 1, totalStates = Fin 1\<rparr>\<rparr>"
proof -
  let ?a = "\<lparr>state_id = 2, stateName = units ''Assam'', createdAt = 6, updatedAt = 6\<rparr>"
  have q: "qval_to_string (Some (mappedSortBy search_request)) = units ''stateName''"
    "where_of search_request = WhereContains (QStr (units ''ss''))"
    "with_default (query_sortOrder search_request) ''asc'' = QStr (units ''asc'')"
    by (simp_all add: example_defs query_defs units_def)
  have p: "effective_page search_request = Fin 1" "effective_limit search_request = Fin 10"
    by (simp_all add: example_defs parse_defs query_defs)
  have k: "skip_of search_request = Fin 0"
    by (simp add: skip_of_def p rnd_zero)
  have a1: "qval_to_string (Some (mappedSortBy search_request)) \<noteq> []"
    by (simp add: q units_def)
  have a2: "where_filter example_store (where_of search_request) =
      Some (\<lambda>r. text_contains example_store (units ''ss'') (stateName r))"
    by (simp add: q)
  have a3: "column_of (qval_to_string (Some (mappedSortBy search_request))) = Some ColStateName"
    by (simp add: q column_of_def units_def)
  have a4: "sort_order_of (with_default (query_sortOrder search_request) ''asc'') = Some False"
    by (simp add: q sort_order_of_def)
  have a5: "skip_arg example_store (skip_of search_request) = Some 0"
    by (simp add: k skip_arg_def as_int_def example_store_def int32_def)
  have a6: "take_arg example_store (effective_limit search_request) = Some 10"
    by (simp add: p take_arg_def as_int_def example_store_def int32_def)
  have m: "filter (\<lambda>r. text_contains example_store (units ''ss'') (stateName r))
             (rows example_store) = [?a]"
    by (simp add: example_store_def units_def)
  have e: "fst (getStates search_request example_store) =
     \<lparr>status = 200,
      body = BPage \<lparr>states = [?a], page = Fin 1,
                    totalPages = js_ceil (js_div (Fin (real (length [?a]))) (Fin 10)),
                    totalStates = Fin (real (length [?a]))\<rparr>\<rparr>"
    using getStates_accepted [OF a1 a2 a3 a4 a5 a6]
    by (simp only: m p) (simp add: slice_rows_def order_rows_def)
  then have ok: "status (fst (getStates search_request example_store)) = 200" by simp
  from C2_pagination [OF ok] obtain sts l M where
    M: "M = (case query_search search_request of
            Some (QStr s) \<Rightarrow>
              if s = [] then rows example_store
              else filter (\<lambda>r. text_contains example_store s (stateName r))
                     (rows example_store)
          | _ \<Rightarrow> rows example_store)"
    and l: "effective_limit search_request = Fin l"
    and r: "fst (getStates search_request example_store) =
       \<lparr>status = 200,
        body = BPage \<lparr>states = sts, page = effective_page search_request,
                      totalPages = js_ceil (js_div (Fin (real (length M))) (Fin l)),
                      totalStates = Fin (real (length M))\<rparr>\<rparr>"
    and c: "length M < 2 ^ 53 \<longrightarrow>
        js_ceil (js_div (Fin (real (length M))) (Fin l)) =
          Fin (of_int \<lceil>real (length M) / l\<rceil>)"
    by blast
  have M': "M = [?a]"
    using M m by (simp add: search_request_def empty_request_def units_def)
  have l': "l = 10" using l p by simp
  have ce: "\<lceil>(1::real) / 10\<rceil> = 1" by (rule ceiling_unique) simp_all
  have tp: "js_ceil (js_div (Fin (real (length M))) (Fin l)) = Fin 1"
    using c by (simp add: M' l' ce)
  from r have r': "fst (getStates search_request example_store) =
       \<lparr>status = 200,
        body = BPage \<lparr>states = sts, page = Fin 1, totalPages = Fin 1, totalStates = Fin 1\<rparr>\<rparr>"
    by (simp only: tp p) (simp add: M')
  from e have "states (case body (fst (getStates search_request example_store)) of
                         BPage pg \<Rightarrow> pg) = [?a]"
    by simp
  with r' have "sts = [?a]" by simp
  with r' show ?thesis by simp
qed

text \<open>
  C2 as stated fails: page 2 and limit 1 are numeric and at least 1, but with the sort
  field \<^verbatim>\<open>bogus\<close> the store refuses the query and the response is 400 with an error
  message, with no totalPages, states or totalStates.
\<close>

theorem C2_counterexample:
  "query_page bogus_sort_page2_request = Some (QStr (units ''2'')) \<and>
   query_limit bogus_sort_page2_request = Some (QStr (units ''1'')) \<and>
   effective_page bogus_sort_page2_request = Fin 2 \<and>
   effective_limit bogus_sort_page2_request = Fin 1 \<and>
   status (fst (getStates bogus_sort_page2_request example_store)) = 400 \<and>
   (\<forall>p. body (fst (getStates bogus_sort_page2_request example_store)) \<noteq> BPage p)"
proof -
  have q: "query_page bogus_sort_page2_request = Some (QStr (units ''2''))"
    "query_limit bogus_sort_page2_request = Some (QStr (units ''1''))"
    by (simp_all add: example_defs)
  have p: "effective_page bogus_sort_page2_request = Fin 2"
    "effective_limit bogus_sort_page2_request = Fin 1"
    by (simp_all add: example_defs parse_defs query_defs)
  have k: "qval_to_string (Some (mappedSortBy bogus_sort_page2_request)) = units ''bogus''"
    by (simp add: example_defs query_defs units_def)
  have c: "column_of (units ''bogus'') = None"
    by (simp add: column_of_def units_def)
  have ne: "units ''bogus'' \<noteq> []"
    by (simp add: units_def)
  have w: "where_filter example_store (where_of bogus_sort_page2_request) = Some (\<lambda>r. True)"
    by (simp add: example_defs query_defs units_def)
  have "\<exists>m. fst (findMany (where_of bogus_sort_page2_request) (skip_of bogus_sort_page2_request)
                  (effective_limit bogus_sort_page2_request)
                  (qval_to_string (Some (mappedSortBy bogus_sort_page2_request)))
                  (with_default (query_sortOrder bogus_sort_page2_request) ''asc'')
                  example_store) = Inl (prismaValidationError m)"
    by (simp add: findMany_def Let_def k c w ne) blast
  then obtain m where "fst (getStates bogus_sort_page2_request example_store) =
      \<lparr>status = 400, body = BErrors (ErrMessage m)\<rparr>"
    by (auto simp add: getStates_def fst_asyncHandler fst_getStates_fn
        catch_error_prismaValidationError)
  with q p show ?thesis by simp
qed

section \<open>The status of the list operation\<close>

lemma mappedSortBy_column:
  assumes "query_sortBy req = None \<or> query_sortBy req = Some (QStr (units ''name'')) \<or>
           query_sortBy req = Some (QStr (units ''id'')) \<or>
           query_sortBy req = Some (QStr (units ''stateName'')) \<or>
           query_sortBy req = Some (QStr (units ''createdAt'')) \<or>
           query_sortBy req = Some (QStr (units ''updatedAt''))"
  shows "qval_to_string (Some (mappedSortBy req)) \<noteq> [] \<and>
         (\<exists>col. column_of (qval_to_string (Some (mappedSortBy req))) = Some col)"
  using assms
  by (elim disjE) (simp_all add: mappedSortBy_def with_default_def column_of_def units_def)

lemma sort_order_accepts:
  assumes "query_sortOrder req = None \<or> query_sortOrder req = Some (QStr (units ''asc'')) \<or>
           query_sortOrder req = Some (QStr (units ''desc''))"
  shows "\<exists>desc. sort_order_of (with_default (query_sortOrder req) ''asc'') = Some desc"
  using assms
  by (elim disjE) (auto simp add: with_default_def sort_order_of_def units_def)

text \<open>
  C8, as amended. The list operation answers 200 with a page for every request whose
  search is absent or a string, whose sortBy is absent or one of \<^verbatim>\<open>name\<close>, \<^verbatim>\<open>id\<close>,
  \<^verbatim>\<open>stateName\<close>, \<^verbatim>\<open>createdAt\<close>, \<^verbatim>\<open>updatedAt\<close>, whose sortOrder is absent, \<^verbatim>\<open>asc\<close> or
  \<^verbatim>\<open>desc\<close>, and whose skip offset and limit are finite numbers that the store takes as
  counts. A page or limit that does not parse to a number is not rejected: the page is
  then 1 and the limit 10, and when neither parses the answer is 200 with page 1 (on a
  store that takes 0 and 10 as counts).
\<close>

theorem C8_list_status:
  assumes "query_search req = None \<or> (\<exists>s. query_search req = Some (QStr s))"
    and "query_sortBy req = None \<or> query_sortBy req = Some (QStr (units ''name'')) \<or>
         query_sortBy req = Some (QStr (units ''id'')) \<or>
         query_sortBy req = Some (QStr (units ''stateName'')) \<or>
         query_sortBy req = Some (QStr (units ''createdAt'')) \<or>
         query_sortBy req = Some (QStr (units ''updatedAt''))"
    and "query_sortOrder req = None \<or> query_sortOrder req = Some (QStr (units ''asc'')) \<or>
         query_sortOrder req = Some (QStr (units ''desc''))"
  shows "(\<forall>s l. skip_of req = Fin s \<and> takes_count st \<lfloor>s\<rfloor> \<and>
                effective_limit req = Fin l \<and> takes_count st \<lfloor>l\<rfloor> \<longrightarrow>
            status (fst (getStates req st)) = 200 \<and>
            (\<exists>p. body (fst (getStates req st)) = BPage p)) \<and>
         (parseInt (qval_to_string (query_page req)) = NaN \<longrightarrow> effective_page req = Fin 1) \<and>
         (parseInt (qval_to_string (query_limit req)) = NaN \<longrightarrow> effective_limit req = Fin 10) \<and>
         (parseInt (qval_to_string (query_page req)) = NaN \<and>
          parseInt (qval_to_string (query_limit req)) = NaN \<and>
          takes_count st 0 \<and> takes_count st 10 \<longrightarrow>
            status (fst (getStates req st)) = 200 \<and>
            (\<exists>p. body (fst (getStates req st)) = BPage p \<and> page p = Fin 1))"
proof -
  from where_filter_accepts [OF assms(1)] obtain f where
    f: "where_filter st (where_of req) = Some f" by blast
  from mappedSortBy_column [OF assms(2)] obtain col where
    k: "qval_to_string (Some (mappedSortBy req)) \<noteq> []"
    and col: "column_of (qval_to_string (Some (mappedSortBy req))) = Some col" by blast
  from sort_order_accepts [OF assms(3)] obtain desc where
    d: "sort_order_of (with_default (query_sortOrder req) ''asc'') = Some desc" by blast
  have a: "status (fst (getStates req st)) = 200 \<and>
           (\<exists>p. body (fst (getStates req st)) = BPage p \<and> page p = effective_page req)"
    if h: "skip_of req = Fin s \<and> takes_count st \<lfloor>s\<rfloor> \<and>
           effective_limit req = Fin l \<and> takes_count st \<lfloor>l\<rfloor>" for s l
  proof -
    from skip_of_cases [of req] h have s: "0 \<le> s" "s \<in> \<int>" by auto
    from h effective_limit_Fin [of req l] have l: "l \<in> \<int>" by simp
    have "0 \<le> \<lfloor>s\<rfloor>" using s(1) by simp
    then have sk: "skip_arg st (skip_of req) = Some \<lfloor>s\<rfloor>"
      using h by (simp add: skip_arg_def as_int_integer [OF s(2)])
    have tk: "take_arg st (effective_limit req) = Some \<lfloor>l\<rfloor>"
      using h by (simp add: take_arg_def as_int_integer [OF l])
    from getStates_accepted [OF k f col d sk tk] show ?thesis by simp
  qed
  have p: "parseInt (qval_to_string (query_page req)) = NaN \<longrightarrow> effective_page req = Fin 1"
    by (simp add: effective_page_def num_or_def num_falsy_def)
  have q: "parseInt (qval_to_string (query_limit req)) = NaN \<longrightarrow>
      effective_limit req = Fin 10"
    by (simp add: effective_limit_def num_or_def num_falsy_def)
  have g: "\<forall>s l. skip_of req = Fin s \<and> takes_count st \<lfloor>s\<rfloor> \<and>
                effective_limit req = Fin l \<and> takes_count st \<lfloor>l\<rfloor> \<longrightarrow>
            status (fst (getStates req st)) = 200 \<and>
            (\<exists>p. body (fst (getStates req st)) = BPage p)"
    using a by blast
  have n: "parseInt (qval_to_string (query_page req)) = NaN \<and>
          parseInt (qval_to_string (query_limit req)) = NaN \<and>
          takes_count st 0 \<and> takes_count st 10 \<longrightarrow>
            status (fst (getStates req st)) = 200 \<and>
            (\<exists>p. body (fst (getStates req st)) = BPage p \<and> page p = Fin 1)"
  proof
    assume h: "parseInt (qval_to_string (query_page req)) = NaN \<and>
          parseInt (qval_to_string (query_limit req)) = NaN \<and>
          takes_count st 0 \<and> takes_count st 10"
    with p q have e: "effective_page req = Fin 1" "effective_limit req = Fin 10" by simp_all
    then have "skip_of req = Fin 0" by (simp add: skip_of_def rnd_zero)
    with e h have "skip_of req = Fin 0 \<and> takes_count st \<lfloor>0::real\<rfloor> \<and>
           effective_limit req = Fin 10 \<and> takes_count st \<lfloor>10::real\<rfloor>"
      by simp
    from a [OF this] e show "status (fst (getStates req st)) = 200 \<and>
            (\<exists>p. body (fst (getStates req st)) = BPage p \<and> page p = Fin 1)"
      by simp
  qed
  from g p q n show ?thesis by (intro conjI) assumption+
qed

theorem C8_list_status_witness:
  "parseInt (qval_to_string (query_page nonnumeric_request)) = NaN \<and>
   parseInt (qval_to_string (query_limit nonnumeric_request)) = NaN \<and>
   takes_count example_store 0 \<and> takes_count example_store 10 \<and>
   status (fst (getStates nonnumeric_request example_store)) = 200 \<and>
   (\<exists>p. body (fst (getStates nonnumeric_request example_store)) = BPage p \<and> page p = Fin 1)"
proof -
  have n: "parseInt (qval_to_string (query_page nonnumeric_request)) = NaN"
    "parseInt (qval_to_string (query_limit nonnumeric_request)) = NaN"
    by (simp_all add: example_defs parse_defs)
  have p: "effective_page nonnumeric_request = Fin 1" "effective_limit nonnumeric_request = Fin 10"
    by (simp_all add: effective_page_def effective_limit_def n num_or_def num_falsy_def)
  have k: "skip_of nonnumeric_request = Fin 0"
    by (simp add: skip_of_def p rnd_zero)
  have q: "query_search nonnumeric_request = None \<or>
           (\<exists>s. query_search nonnumeric_request = Some (QStr s))"
    "query_sortBy nonnumeric_request = None \<or>
         query_sortBy nonnumeric_request = Some (QStr (units ''name'')) \<or>
         query_sortBy nonnumeric_request = Some (QStr (units ''id'')) \<or>
         query_sortBy nonnumeric_request = Some (QStr (units ''stateName'')) \<or>
         query_sortBy nonnumeric_request = Some (QStr (units ''createdAt'')) \<or>
         query_sortBy nonnumeric_request = Some (QStr (units ''updatedAt''))"
    "query_sortOrder nonnumeric_request = None \<or>
         query_sortOrder nonnumeric_request = Some (QStr (units ''asc'')) \<or>
         query_sortOrder nonnumeric_request = Some (QStr (units ''desc''))"
    by (simp_all add: example_defs)
  have t: "takes_count example_store 0" "takes_count example_store 10"
    by (simp_all add: example_store_def int32_def)
  from n t have h: "parseInt (qval_to_string (query_page nonnumeric_request)) = NaN \<and>
          parseInt (qval_to_string (query_limit nonnumeric_request)) = NaN \<and>
          takes_count example_store 0 \<and> takes_count example_store 10"
    by simp
  from C8_list_status [OF q, of example_store, THEN conjunct2, THEN conjunct2, THEN conjunct2,
      THEN mp, OF h]
  have "status (fst (getStates nonnumeric_request example_store)) = 200 \<and>
   (\<exists>p. body (fst (getStates nonnumeric_request example_store)) = BPage p \<and> page p = Fin 1)" .
  with n t show ?thesis by (intro conjI) simp_all
qed

text \<open>
  C8 as stated fails: with the sort field \<^verbatim>\<open>bogus\<close> and nothing else in the query, the
  store refuses the query and the list operation answers 400, not 200.
\<close>

theorem C8_counterexample:
  "query_sortBy bogus_sort_request = Some (QStr (units ''bogus'')) \<and>
   status (fst (getStates bogus_sort_request example_store)) = 400 \<and>
   status (fst (getStates bogus_sort_request example_store)) \<noteq> 200"
proof -
  have k: "qval_to_string (Some (mappedSortBy bogus_sort_request)) = units ''bogus''"
    by (simp add: example_defs query_defs units_def)
  have c: "column_of (units ''bogus'') = None"
    by (simp add: column_of_def units_def)
  have ne: "units ''bogus'' \<noteq> []"
    by (simp add: units_def)
  have w: "where_filter example_store (where_of bogus_sort_request) = Some (\<lambda>r. True)"
    by (simp add: example_defs query_defs units_def)
  have "\<exists>m. fst (findMany (where_of bogus_sort_request) (skip_of bogus_sort_request)
                  (effective_limit bogus_sort_request)
                  (qval_to_string (Some (mappedSortBy bogus_sort_request)))
                  (with_default (query_sortOrder bogus_sort_request) ''asc'')
                  example_store) = Inl (prismaValidationError m)"
    by (simp add: findMany_def Let_def k c w ne) blast
  then obtain m where "fst (getStates bogus_sort_request example_store) =
      \<lparr>status = 400, body = BErrors (ErrMessage m)\<rparr>"
    by (auto simp add: getStates_def fst_asyncHandler fst_getStates_fn
        catch_error_prismaValidationError)
  then show ?thesis by (simp add: example_defs)
qed

end
